theory Spec2Isabelle
  imports Main "HOL-Library.Word" "HOL-Library.Char_ord" "HOL-Library.List_Lexorder"
begin

unbundle bit_operations_syntax

section \<open>Bytes, machine integers and errors\<close>

text \<open>
  Go's \<open>byte\<close>/\<open>uint8\<close>, \<open>uint32\<close>/\<open>int32\<close> and \<open>uint64\<close>/\<open>int64\<close> are words of that
  width: a signed and an unsigned Go integer of one width share the bit pattern, and the
  conversion between them (\<open>uint32(position[0])\<close>) keeps it. A \<open>[]byte\<close> is a list.
\<close>

type_synonym byte = "8 word"
type_synonym bytes = "byte list"
type_synonym u32 = "32 word"
type_synonym u64 = "64 word"

text \<open>
  Error values. \<open>ErrNotFound\<close> is \<open>leveldb.ErrNotFound\<close>; \<open>ErrStore\<close> stands for any other
  failure of the key/value store; \<open>Errorf msg\<close> is \<open>fmt.Errorf(msg)\<close> and \<open>Wrap msg e\<close> is
  \<open>fmt.Errorf(msg + ": %w", e)\<close> (the other format arguments are not kept);
  \<open>EOF\<close> is \<open>io.EOF\<close>; \<open>ErrCodec\<close> is an error of a decoder or encoder outside the
  modelled files; \<open>Panic msg\<close> is a Go panic.
\<close>

datatype error =
    ErrNotFound
  | ErrStore
  | EOF
  | ErrCodec
  | Errorf string
  | Wrap string error
  | Panic string

section \<open>Dimensions and the chunk index key (world/dimension.go, mcdb/db.go)\<close>

text \<open>
  The four dimension values of the source: \<open>overworld{legacy: b}\<close>, \<open>nether{}\<close>, \<open>end{}\<close>
  and \<open>nopDim{}\<close>.
\<close>

datatype Dimension = overworld (legacy: bool) | nether | end_dim | nopDim

definition Overworld :: Dimension where "Overworld = overworld False"
definition Nether :: Dimension where "Nether = nether"
definition End :: Dimension where "End = end_dim"
definition Overworld_legacy :: Dimension where "Overworld_legacy = overworld True"

record dimensionRegistry =
  dimensions :: "(int \<times> Dimension) list"
  IDs :: "Dimension \<rightharpoonup> int"

text \<open>
  \<open>newDimensionRegistry\<close>: the loop \<open>for k, v := range dim\<close> over the map, here an association
  list walked front to back (the dimensions of the map are distinct, so the order of the
  walk does not change the result). A legacy overworld has 10 subtracted from its key.
\<close>

fun registeredID :: "int \<Rightarrow> Dimension \<Rightarrow> int" where
  "registeredID k (overworld o_legacy) = (if o_legacy then k - 10 else k)"
| "registeredID k v = k"

fun registerIDs :: "(int \<times> Dimension) list \<Rightarrow> (Dimension \<rightharpoonup> int) \<Rightarrow> (Dimension \<rightharpoonup> int)" where
  "registerIDs [] ids = ids"
| "registerIDs ((k, v) # rest) ids = registerIDs rest (ids(v \<mapsto> registeredID k v))"

definition newDimensionRegistry :: "(int \<times> Dimension) list \<Rightarrow> dimensionRegistry" where
  "newDimensionRegistry dim = \<lparr>dimensions = dim, IDs = registerIDs dim Map.empty\<rparr>"

definition dimensionReg :: dimensionRegistry where
  "dimensionReg = newDimensionRegistry
     [(0, Overworld), (1, Nether), (2, End), (10, Overworld_legacy)]"

text \<open>\<open>LookupID\<close>: a missing key of a Go map reads as the zero value with \<open>ok = false\<close>.\<close>

definition LookupID :: "dimensionRegistry \<Rightarrow> Dimension \<Rightarrow> int \<times> bool" where
  "LookupID reg dim = (case IDs reg dim of Some i \<Rightarrow> (i, True) | None \<Rightarrow> (0, False))"

definition DimensionID :: "Dimension \<Rightarrow> int \<times> bool" where
  "DimensionID dim = LookupID dimensionReg dim"

text \<open>
  \<open>binary.LittleEndian.PutUint32(b[off:], v)\<close>: four bytes of the buffer are overwritten
  in place, the least significant first.
\<close>

definition PutUint32 :: "bytes \<Rightarrow> nat \<Rightarrow> u32 \<Rightarrow> bytes" where
  "PutUint32 b off v =
     b[off := ucast v, off + 1 := ucast (drop_bit 8 v),
       off + 2 := ucast (drop_bit 16 v), off + 3 := ucast (drop_bit 24 v)]"

text \<open>A chunk position is \<open>[2]int32\<close>.\<close>

type_synonym ChunkPos = "u32 \<times> u32"

text \<open>\<open>(*DB).index\<close>: the key prefix of a chunk. \<open>uint32(dim)\<close> truncates the Go \<open>int\<close>.\<close>

definition index :: "ChunkPos \<Rightarrow> Dimension \<Rightarrow> bytes" where
  "index position d =
     (let dim = fst (DimensionID d);
          x = fst position; z = snd position;
          b = replicate 12 (0 :: byte);
          b = PutUint32 b 0 x;
          b = PutUint32 b 4 z
      in if dim = 0 then take 8 b
         else PutUint32 b 8 (word_of_int dim))"

text \<open>The little-endian encoding of a 32-bit value, as the specification names it.\<close>

definition little_endian_u32 :: "u32 \<Rightarrow> bytes" where
  "little_endian_u32 v =
     [ucast v, ucast (drop_bit 8 v), ucast (drop_bit 16 v), ucast (drop_bit 24 v)]"

definition registered :: "Dimension \<Rightarrow> bool" where
  "registered d = snd (DimensionID d)"

section \<open>The canonical hash of a property map (world/block_state.go)\<close>

text \<open>
  A property value is a Go \<open>any\<close>. The type switch of \<open>hashProperties\<close> knows \<open>bool\<close>,
  \<open>uint8\<close>, \<open>int32\<close> and \<open>string\<close>; \<open>POther\<close> is a value of any other dynamic type.
\<close>

datatype property = PBool bool | PUint8 byte | PInt32 u32 | PString string | POther

text \<open>
  A \<open>map[string]any\<close>: \<open>None\<close> is the nil map, \<open>Some p\<close> holds the entries in the
  order in which \<open>range\<close> walks them (an order Go leaves open, so no result may depend on
  it). The keys of a Go map are distinct: \<open>distinct (map fst p)\<close>.
\<close>

type_synonym properties = "(string \<times> property) list option"

text \<open>A byte written to the \<open>strings.Builder\<close>, as a character of the resulting string.\<close>

definition byte_char :: "byte \<Rightarrow> char" where
  "byte_char b = char_of (unat b)"

text \<open>
  The body of the type switch on \<open>properties[k]\<close>: the bytes appended for one key. The
  \<open>int32\<close> is copied from memory (\<open>unsafe.Pointer\<close>), least significant byte first on the
  little-endian targets the server runs on. A missing key reads as the nil interface and,
  like any other type, reaches the \<open>default\<close> branch, which panics.
\<close>

fun writeProperty :: "property option \<Rightarrow> error + string" where
  "writeProperty (Some (PBool v)) = Inr [if v then byte_char 1 else byte_char 0]"
| "writeProperty (Some (PUint8 v)) = Inr [byte_char v]"
| "writeProperty (Some (PInt32 v)) = Inr (map byte_char (little_endian_u32 v))"
| "writeProperty (Some (PString v)) = Inr v"
| "writeProperty _ = Inl (Panic ''invalid block property type'')"

text \<open>The loop \<open>for _, k := range keys\<close>, with the builder \<open>b\<close> as accumulator.\<close>

fun writeProperties :: "(string \<times> property) list \<Rightarrow> string list \<Rightarrow> string \<Rightarrow> error + string" where
  "writeProperties p [] b = Inr b"
| "writeProperties p (k # keys) b =
     (case writeProperty (map_of p k) of
        Inl e \<Rightarrow> Inl e
      | Inr s \<Rightarrow> writeProperties p keys (b @ s))"

text \<open>
  \<open>hashProperties\<close>: the keys are collected, sorted with \<open>sort.Slice\<close> under the byte-wise
  order \<open><\<close> of Go strings (the lexicographic order of \<open>char list\<close>), and the values are
  written in that order. On distinct keys every sorting algorithm gives the same list.
\<close>

definition hashProperties :: "properties \<Rightarrow> error + string" where
  "hashProperties properties =
     (case properties of
        None \<Rightarrow> Inr []
      | Some p \<Rightarrow> writeProperties p (sort (map fst p)) [])"

text \<open>
  The type and the encoded length of a value: what two maps must share, key by key, for the
  hash to tell them apart.
\<close>

fun layout :: "property option \<Rightarrow> (nat \<times> nat) option" where
  "layout (Some (PBool v)) = Some (0, 1)"
| "layout (Some (PUint8 v)) = Some (1, 1)"
| "layout (Some (PInt32 v)) = Some (2, 4)"
| "layout (Some (PString v)) = Some (3, length v)"
| "layout _ = None"

definition same_layout :: "(string \<times> property) list \<Rightarrow> (string \<times> property) list \<Rightarrow> bool" where
  "same_layout p q \<longleftrightarrow>
     set (map fst p) = set (map fst q) \<and>
     (\<forall>k \<in> set (map fst p). layout (map_of p k) \<noteq> None \<and> layout (map_of p k) = layout (map_of q k))"

text \<open>The bytes written for one key, when its value has one of the four types.\<close>

definition enc :: "(string \<times> property) list \<Rightarrow> string \<Rightarrow> string" where
  "enc p k = (case writeProperty (map_of p k) of Inr s \<Rightarrow> s | Inl e \<Rightarrow> [])"


section \<open>The block state registry (world/block_state.go)\<close>

record blockState =
  Name :: string
  Properties :: properties
  Version :: u32

text \<open>\<open>stateHash\<close>: the name and the hash of the properties.\<close>

type_synonym stateHash = "string \<times> string"

text \<open>
  The package variables the registration and the lookup use: \<open>blockProperties\<close>,
  \<open>blocks\<close> (every registered state is appended as an \<open>UnknownBlock\<close> holding the state)
  and \<open>stateRuntimeIDs\<close>.
\<close>

record registry =
  blockProperties :: "string \<rightharpoonup> properties"
  blocks :: "blockState list"
  stateRuntimeIDs :: "stateHash \<rightharpoonup> u32"

definition ClearStates :: registry where
  "ClearStates = \<lparr>blockProperties = Map.empty, blocks = [], stateRuntimeIDs = Map.empty\<rparr>"

text \<open>
  \<open>registerBlockState\<close>: panics on a state hash that is registered already; records the
  properties of the first state of a name; the runtime ID is \<open>uint32(len(blocks))\<close>.
\<close>

definition registerBlockState :: "blockState \<Rightarrow> registry \<Rightarrow> error + registry" where
  "registerBlockState s reg =
     (case hashProperties (Properties s) of
        Inl e \<Rightarrow> Inl e
      | Inr hp \<Rightarrow>
          (let h = (Name s, hp) in
           if stateRuntimeIDs reg h \<noteq> None
           then Inl (Panic ''cannot register the same state twice'')
           else Inr (reg\<lparr>
             blockProperties :=
               (if blockProperties reg (Name s) = None
                then (blockProperties reg)(Name s \<mapsto> Properties s)
                else blockProperties reg),
             blocks := blocks reg @ [s],
             stateRuntimeIDs := (stateRuntimeIDs reg)(h \<mapsto> of_nat (length (blocks reg)))\<rparr>)))"

text \<open>
  The loop of \<open>LoadBlockStates\<close> over the states decoded from the embedded catalogue (and
  the loop of \<open>InsertCustomBlocks\<close> over the permutations): each state is registered in
  turn, and a panic ends the run.
\<close>

fun registerBlockStates :: "blockState list \<Rightarrow> registry \<Rightarrow> error + registry" where
  "registerBlockStates [] reg = Inr reg"
| "registerBlockStates (s # ss) reg =
     (case registerBlockState s reg of
        Inl e \<Rightarrow> Inl e
      | Inr reg' \<Rightarrow> registerBlockStates ss reg')"

text \<open>
  \<open>chunk.StateToRuntimeID\<close>, the closure set in \<open>init\<close>. A missing key of
  \<open>blockProperties\<close> reads as the nil map; a missing key of \<open>stateRuntimeIDs\<close> reads as 0
  with \<open>ok = false\<close>.
\<close>

definition StateToRuntimeID :: "registry \<Rightarrow> string \<Rightarrow> properties \<Rightarrow> error + (u32 \<times> bool)" where
  "StateToRuntimeID reg name properties =
     (case hashProperties properties of
        Inl e \<Rightarrow> Inl e
      | Inr hp \<Rightarrow>
          (case stateRuntimeIDs reg (name, hp) of
             Some rid \<Rightarrow> Inr (rid, True)
           | None \<Rightarrow>
               (case hashProperties (case blockProperties reg name of Some d \<Rightarrow> d | None \<Rightarrow> None) of
                  Inl e \<Rightarrow> Inl e
                | Inr hdflt \<Rightarrow>
                    (case stateRuntimeIDs reg (name, hdflt) of
                       Some rid \<Rightarrow> Inr (rid, True)
                     | None \<Rightarrow> Inr (0, False)))))"

text \<open>
  \<open>chunk.RuntimeIDToState\<close>, the other closure of \<open>init\<close>: a bounds-checked read of
  \<open>blocks\<close>.
\<close>

definition RuntimeIDToState :: "registry \<Rightarrow> u32 \<Rightarrow> (string \<times> properties) option" where
  "RuntimeIDToState reg runtimeID =
     (if unat runtimeID \<ge> unat (of_nat (length (blocks reg)) :: u32) then None
      else Some (Name (blocks reg ! unat runtimeID), Properties (blocks reg ! unat runtimeID)))"

text \<open>
  The first state registered under a name, and its position in the order of registration:
  what the specification calls the default of the name.
\<close>

definition firstState :: "string \<Rightarrow> blockState list \<Rightarrow> blockState option" where
  "firstState name states = find (\<lambda>s. Name s = name) states"

definition firstIndex :: "string \<Rightarrow> blockState list \<Rightarrow> nat" where
  "firstIndex name states = length (takeWhile (\<lambda>s. Name s \<noteq> name) states)"

text \<open>Invariant linking the three tables with the list of states registered so far.\<close>

definition reg_inv :: "registry \<Rightarrow> bool" where
  "reg_inv reg \<longleftrightarrow>
     (\<forall>name. blockProperties reg name = map_option Properties (firstState name (blocks reg))) \<and>
     (\<forall>name. case firstState name (blocks reg) of
        None \<Rightarrow> (\<forall>h. stateRuntimeIDs reg (name, h) = None)
      | Some s0 \<Rightarrow> (\<exists>h. hashProperties (Properties s0) = Inr h \<and>
           stateRuntimeIDs reg (name, h) = Some (of_nat (firstIndex name (blocks reg)))))"

text \<open>A small registry: air, and two states of one name.\<close>

definition stone :: blockState where
  "stone = \<lparr>Name = ''stone'', Properties = Some [(''type'', PString ''a'')], Version = 1\<rparr>"

definition stone_b :: blockState where
  "stone_b = \<lparr>Name = ''stone'', Properties = Some [(''type'', PString ''b'')], Version = 1\<rparr>"

definition air_state :: blockState where
  "air_state = \<lparr>Name = ''air'', Properties = None, Version = 1\<rparr>"

definition example_registry :: registry where
  "example_registry =
     \<lparr>blockProperties = [''air'' \<mapsto> None, ''stone'' \<mapsto> Some [(''type'', PString ''a'')]],
      blocks = [air_state, stone, stone_b],
      stateRuntimeIDs = [(''air'', []) \<mapsto> 0, (''stone'', ''a'') \<mapsto> 1, (''stone'', ''b'') \<mapsto> 2]\<rparr>"


section \<open>The chunk codec (chunk/decode.go)\<close>

text \<open>
  The encodings are the three package variables the source compares with \<open>==\<close>; the
  palette encodings are the two the decoder is called with.
\<close>

datatype Encoding = DiskEncoding | NetworkEncoding | NetworkPersistentEncoding

datatype paletteEncoding = BlockPaletteEncoding | BiomePaletteEncoding

text \<open>
  The structures of the chunk package, with the fields the modelled functions read and
  write. A \<open>*PalettedStorage\<close> may be nil, so a storage slot is an \<open>option\<close>. The fields
  \<open>r\<close>, \<open>air\<close>, \<open>sub\<close> and \<open>biomes\<close> of \<open>Chunk\<close> carry the prefix \<open>chunk_\<close>, the field
  \<open>air\<close> of \<open>SubChunk\<close> the prefix \<open>sub_\<close>, and \<open>size\<close> and \<open>values\<close> of \<open>Palette\<close> the
  prefix \<open>palette_\<close>.
\<close>

record Palette =
  palette_size :: byte
  palette_values :: "u32 list"

record PalettedStorage =
  indices :: "u32 list"
  palette :: Palette

record SubChunk =
  sub_air :: u32
  storages :: "PalettedStorage option list"

record Chunk =
  chunk_r :: "int \<times> int"
  chunk_air :: u32
  chunk_sub :: "SubChunk list"
  chunk_biomes :: "PalettedStorage option list"

record SerialisedData =
  SubChunks :: "bytes list"
  Biomes :: bytes

text \<open>A decoded NBT value (a Go \<open>any\<close>) and a decoded NBT compound (\<open>map[string]any\<close>).\<close>

datatype nbt = NByte byte | NInt32 u32 | NInt64 u64 | NString string | NOther

type_synonym nbtmap = "string \<rightharpoonup> nbt"

text \<open>
  The parts of the chunk and cube packages that the modelled functions call and whose
  source is not among the modelled files, as parameters: \<open>paletteSize.uint32s\<close>,
  \<open>Encoding.decodePalette\<close> (it returns the palette or an error, and the rest of the buffer),
  \<open>chunk.New\<close>, \<open>Chunk.SetBiome\<close>, \<open>chunk.Encode\<close> with the disk encoding, and
  \<open>Min\<close>, \<open>Max\<close> and \<open>Height\<close> of \<open>cube.Range\<close>. \<open>nbt_decode_network\<close> is one call of
  \<open>Decode\<close> on the NBT decoder of the gophertunnel library (network little endian,
  \<open>AllowZero\<close> set): the compound and the rest of the buffer, or an error.
\<close>

record codec =
  uint32s :: "byte \<Rightarrow> nat"
  decodePalette :: "Encoding \<Rightarrow> bytes \<Rightarrow> byte \<Rightarrow> paletteEncoding \<Rightarrow> (error + Palette) \<times> bytes"
  New :: "u32 \<Rightarrow> int \<times> int \<Rightarrow> Chunk"
  SetBiome :: "Chunk \<Rightarrow> byte \<Rightarrow> 16 word \<Rightarrow> byte \<Rightarrow> u32 \<Rightarrow> Chunk"
  Encode :: "Chunk \<Rightarrow> SerialisedData"
  Range_Min :: "int \<times> int \<Rightarrow> int"
  Range_Max :: "int \<times> int \<Rightarrow> int"
  Range_Height :: "int \<times> int \<Rightarrow> int"
  nbt_decode_network :: "bytes \<Rightarrow> error + (nbtmap \<times> bytes)"

text \<open>
  The constructors \<open>newPalettedStorage\<close> and \<open>NewSubChunk\<close>, whose source is not among the
  modelled files either: they set the fields above (a new sub-chunk has no storages).
\<close>

definition newPalettedStorage :: "u32 list \<Rightarrow> Palette \<Rightarrow> PalettedStorage" where
  "newPalettedStorage ws p = \<lparr>indices = ws, palette = p\<rparr>"

definition NewSubChunk :: "u32 \<Rightarrow> SubChunk" where
  "NewSubChunk a = \<lparr>sub_air = a, storages = []\<rparr>"

text \<open>The word \<open>i\<close> of the block data: four bytes, the least significant first.\<close>

definition uint32_at :: "bytes \<Rightarrow> nat \<Rightarrow> u32" where
  "uint32_at d i =
     ucast (d ! (i * 4)) OR push_bit 8 (ucast (d ! (i * 4 + 1)))
       OR push_bit 16 (ucast (d ! (i * 4 + 2))) OR push_bit 24 (ucast (d ! (i * 4 + 3)))"

text \<open>
  \<open>decodePalettedStorage\<close>. The result is the error, or the storage (\<open>None\<close> is the nil
  pointer returned with a nil error for the size \<open>0x7f\<close>), and the buffer after the read.
  \<open>buf.Next(n)\<close> takes what is there when fewer than \<open>n\<close> bytes are left.
\<close>

definition decodePalettedStorage ::
  "codec \<Rightarrow> bytes \<Rightarrow> Encoding \<Rightarrow> paletteEncoding \<Rightarrow> (error + PalettedStorage option) \<times> bytes" where
  "decodePalettedStorage cd buf e pe =
     (case buf of
        [] \<Rightarrow> (Inl (Wrap ''error reading block size'' EOF), buf)
      | b # buf1 \<Rightarrow>
          (let e1 = (if e = NetworkEncoding \<and> b AND 1 \<noteq> 1 then NetworkPersistentEncoding else e);
               blockSize = drop_bit 1 b
           in if blockSize = 0x7f then (Inr None, buf1)
              else
                (let uint32Count = uint32s cd blockSize;
                     byteCount = uint32Count * 4;
                     data = take byteCount buf1;
                     buf2 = drop byteCount buf1
                 in if length data \<noteq> byteCount
                    then (Inl (Errorf ''cannot read paletted storage: not enough block data present''), buf2)
                    else
                      (let ws = map (uint32_at data) [0..<uint32Count] in
                       case decodePalette cd e1 buf2 blockSize pe of
                         (Inl err, buf3) \<Rightarrow> (Inl err, buf3)
                       | (Inr p, buf3) \<Rightarrow> (Inr (Some (newPalettedStorage ws p)), buf3)))))"

text \<open>
  The loop of \<open>decodeBiomes\<close> (and of the biome branch of \<open>NetworkDecode\<close>) over the
  indices still to visit, with the pointer \<open>last\<close> (here \<open>last_s\<close>); the result is the
  chunk with its biome slots written, and the buffer.
\<close>

fun decodeBiomeStorages ::
  "codec \<Rightarrow> Encoding \<Rightarrow> nat list \<Rightarrow> PalettedStorage option \<Rightarrow> bytes \<Rightarrow> Chunk \<Rightarrow> error + (Chunk \<times> bytes)" where
  "decodeBiomeStorages cd e [] last_s buf c = Inr (c, buf)"
| "decodeBiomeStorages cd e (i # rest) last_s buf c =
     (case decodePalettedStorage cd buf e BiomePaletteEncoding of
        (Inl err, buf1) \<Rightarrow> Inl err
      | (Inr b, buf1) \<Rightarrow>
          if i = 0 \<and> b = None then Inl (Errorf ''first biome storage pointed to previous one'')
          else if length (chunk_biomes c) \<le> i then Inl (Panic ''index out of range'')
          else (case b of
                  None \<Rightarrow> decodeBiomeStorages cd e rest last_s buf1
                            (c\<lparr>chunk_biomes := (chunk_biomes c)[i := last_s]\<rparr>)
                | Some s \<Rightarrow> decodeBiomeStorages cd e rest (Some s) buf1
                            (c\<lparr>chunk_biomes := (chunk_biomes c)[i := Some s]\<rparr>)))"

definition decodeBiomes :: "codec \<Rightarrow> bytes \<Rightarrow> Chunk \<Rightarrow> Encoding \<Rightarrow> error + Chunk" where
  "decodeBiomes cd buf c e =
     (if buf \<noteq> []
      then (case decodeBiomeStorages cd e [0..<length (chunk_sub c)] None buf c of
              Inl err \<Rightarrow> Inl err
            | Inr (c1, buf1) \<Rightarrow> Inr c1)
      else Inr c)"

text \<open>
  The loop \<open>for i := byte(0); i < storageCount; i++\<close> of \<open>decodeSubChunk\<close>: that many
  storages are decoded one after the other (the source calls it with the block palette
  encoding).
\<close>

fun decodeStorages ::
  "codec \<Rightarrow> Encoding \<Rightarrow> paletteEncoding \<Rightarrow> nat \<Rightarrow> bytes \<Rightarrow>
     error + (PalettedStorage option list \<times> bytes)" where
  "decodeStorages cd e pe 0 buf = Inr ([], buf)"
| "decodeStorages cd e pe (Suc n) buf =
     (case decodePalettedStorage cd buf e pe of
        (Inl err, buf1) \<Rightarrow> Inl err
      | (Inr s, buf1) \<Rightarrow>
          (case decodeStorages cd e pe n buf1 of
             Inl err \<Rightarrow> Inl err
           | Inr (ss, buf2) \<Rightarrow> Inr (s # ss, buf2)))"

text \<open>
  \<open>decodeSubChunk\<close>: the error, or the sub-chunk and the buffer after the read; and the
  value of \<open>*index\<close> after the call, which version 9 rewrites from the Y value it reads:
  \<open>uint8(int8(uIndex) - int8(c.r[0]>>4))\<close>, a subtraction of 8-bit values.
\<close>

definition decodeSubChunk ::
  "codec \<Rightarrow> bytes \<Rightarrow> Chunk \<Rightarrow> byte \<Rightarrow> Encoding \<Rightarrow> (error + (SubChunk \<times> bytes)) \<times> byte" where
  "decodeSubChunk cd buf c idx e =
     (case buf of
        [] \<Rightarrow> (Inl (Wrap ''error reading version'' EOF), idx)
      | ver # buf1 \<Rightarrow>
          if ver = 1 then
            (case decodePalettedStorage cd buf1 e BlockPaletteEncoding of
               (Inl err, buf2) \<Rightarrow> (Inl err, idx)
             | (Inr storage, buf2) \<Rightarrow>
                 (Inr ((NewSubChunk (chunk_air c))\<lparr>storages := [storage]\<rparr>, buf2), idx))
          else if ver = 8 \<or> ver = 9 then
            (case buf1 of
               [] \<Rightarrow> (Inl (Wrap ''error reading storage count'' EOF), idx)
             | storageCount # buf2 \<Rightarrow>
                 (case (if ver = 9
                        then (case buf2 of
                                [] \<Rightarrow> Inl (Wrap ''error reading sub-chunk index'' EOF)
                              | uIndex # buf3 \<Rightarrow>
                                  Inr (uIndex - word_of_int (fst (chunk_r c) div 16), buf3))
                        else Inr (idx, buf2)) of
                    Inl err \<Rightarrow> (Inl err, idx)
                  | Inr (idx1, buf3) \<Rightarrow>
                      (case decodeStorages cd e BlockPaletteEncoding (unat storageCount) buf3 of
                         Inl err \<Rightarrow> (Inl err, idx1)
                       | Inr (ss, buf4) \<Rightarrow>
                           (Inr ((NewSubChunk (chunk_air c))\<lparr>storages := ss\<rparr>, buf4), idx1))))
          else (Inl (Errorf ''unknown sub chunk version: can't decode''), idx))"

text \<open>
  What the loop of \<open>decodeBiomes\<close> makes of the storages read one after the other
  (\<open>None\<close> is the inherit marker), with \<open>last_s\<close> the storage to inherit; and, in the words
  of the specification, the most recently decoded storage that is not a marker, at or before
  position \<open>i\<close>.
\<close>

fun resolve :: "'a option \<Rightarrow> 'a option list \<Rightarrow> 'a option list" where
  "resolve last_s [] = []"
| "resolve last_s (None # rs) = last_s # resolve last_s rs"
| "resolve last_s (Some s # rs) = Some s # resolve (Some s) rs"

fun mostRecent :: "'a option list \<Rightarrow> nat \<Rightarrow> 'a option" where
  "mostRecent rs 0 = rs ! 0"
| "mostRecent rs (Suc i) = (case rs ! Suc i of Some s \<Rightarrow> Some s | None \<Rightarrow> mostRecent rs i)"

text \<open>
  The hashed runtime IDs of \<open>NetworkDecode\<close>. \<open>ridHashLookup[v]\<close> reads a Go map: a missing
  key reads as 0. The loop \<open>for i2, v := range storage.palette.values\<close> writes the slice in
  place, index by index.
\<close>

definition ridHashLookup_at :: "(u32 \<rightharpoonup> u32) \<Rightarrow> u32 \<Rightarrow> u32" where
  "ridHashLookup_at ridHashLookup v = (case ridHashLookup v of Some rid \<Rightarrow> rid | None \<Rightarrow> 0)"

fun lookupValues :: "(u32 \<rightharpoonup> u32) \<Rightarrow> nat list \<Rightarrow> u32 list \<Rightarrow> u32 list" where
  "lookupValues ridHashLookup [] vs = vs"
| "lookupValues ridHashLookup (i2 # rest) vs =
     lookupValues ridHashLookup rest (vs[i2 := ridHashLookup_at ridHashLookup (vs ! i2)])"

text \<open>
  The loop \<open>for _, storage := range c.sub[index].storages\<close>: a nil storage is dereferenced
  and the program panics.
\<close>

fun lookupStorages ::
  "(u32 \<rightharpoonup> u32) \<Rightarrow> PalettedStorage option list \<Rightarrow> error + PalettedStorage option list" where
  "lookupStorages ridHashLookup [] = Inr []"
| "lookupStorages ridHashLookup (None # rest) = Inl (Panic ''nil pointer dereference'')"
| "lookupStorages ridHashLookup (Some storage # rest) =
     (case lookupStorages ridHashLookup rest of
        Inl err \<Rightarrow> Inl err
      | Inr rest1 \<Rightarrow>
          Inr (Some (storage\<lparr>palette := (palette storage)\<lparr>palette_values :=
                 lookupValues ridHashLookup [0..<length (palette_values (palette storage))]
                   (palette_values (palette storage))\<rparr>\<rparr>) # rest1))"

text \<open>
  The first loop of \<open>NetworkDecode\<close>, over the values of \<open>i\<close> still to visit. The statement
  \<open>c.sub[index], err = decodeSubChunk(buf, c, &index, NetworkEncoding)\<close> stores at the index
  the call leaves in \<open>index\<close>, as the comment in \<open>decodeSubChunk\<close> intends and as the Go
  compiler evaluates it; the store comes before the test of \<open>err\<close>, so an index out of
  range panics first.
\<close>

fun decodeSubChunks ::
  "codec \<Rightarrow> (u32 \<rightharpoonup> u32) \<Rightarrow> bool \<Rightarrow> nat list \<Rightarrow> bytes \<Rightarrow> Chunk \<Rightarrow> error + (Chunk \<times> bytes)" where
  "decodeSubChunks cd ridHashLookup hashedRids [] buf c = Inr (c, buf)"
| "decodeSubChunks cd ridHashLookup hashedRids (i # rest) buf c =
     (case decodeSubChunk cd buf c (of_nat i) NetworkEncoding of
        (res, idx) \<Rightarrow>
          if length (chunk_sub c) \<le> unat idx then Inl (Panic ''index out of range'')
          else (case res of
                  Inl err \<Rightarrow> Inl err
                | Inr (s, buf1) \<Rightarrow>
                    if hashedRids then
                      (case lookupStorages ridHashLookup (storages s) of
                         Inl err \<Rightarrow> Inl err
                       | Inr ss \<Rightarrow>
                           decodeSubChunks cd ridHashLookup hashedRids rest buf1
                             (c\<lparr>chunk_sub := (chunk_sub c)[unat idx := s\<lparr>storages := ss\<rparr>]\<rparr>))
                    else decodeSubChunks cd ridHashLookup hashedRids rest buf1
                           (c\<lparr>chunk_sub := (chunk_sub c)[unat idx := s]\<rparr>)))"

text \<open>
  The old biomes of \<open>NetworkDecode\<close>: \<open>buf.Read\<close> fills a 256-byte array with what the
  buffer holds (and fails on an empty buffer only); every column \<open>(x, z)\<close> is then set to
  its biome for every \<open>y\<close> of the range.
\<close>

definition setOldBiomes :: "codec \<Rightarrow> bytes \<Rightarrow> int \<times> int \<Rightarrow> Chunk \<Rightarrow> Chunk" where
  "setOldBiomes cd bs r c =
     foldl (\<lambda>c x. foldl (\<lambda>c z.
         foldl (\<lambda>c y. SetBiome cd c (of_nat x) (word_of_int y) (of_nat z) (ucast (bs ! ((x AND 15) OR push_bit 4 (z AND 15)))))
           c [Range_Min cd r..Range_Max cd r])
       c [0..<16]) c [0..<16]"

text \<open>
  The last loop of \<open>NetworkDecode\<close>: block entity compounds are decoded until the buffer is
  empty. Nothing in the loop bounds the number of rounds (that is up to the decoder),
  so a run that does not end is the value \<open>None\<close>.
\<close>

partial_function (option) decodeBlockNBTs ::
  "codec \<Rightarrow> bytes \<Rightarrow> nbtmap list \<Rightarrow> (error + nbtmap list) option" where
  "decodeBlockNBTs cd buf blockNBTs =
     (if buf = [] then Some (Inr blockNBTs)
      else (case nbt_decode_network cd buf of
              Inl err \<Rightarrow> Some (Inl err)
            | Inr (blockNBT, buf1) \<Rightarrow>
                decodeBlockNBTs cd buf1
                  (if blockNBT \<noteq> Map.empty then blockNBTs @ [blockNBT] else blockNBTs)))"

definition NetworkDecode ::
  "codec \<Rightarrow> (u32 \<rightharpoonup> u32) \<Rightarrow> u32 \<Rightarrow> bytes \<Rightarrow> int \<Rightarrow> bool \<Rightarrow> bool \<Rightarrow> int \<times> int \<Rightarrow>
     (error + (Chunk \<times> nbtmap list)) option" where
  "NetworkDecode cd ridHashLookup a data count oldBiomes hashedRids r =
     (let c = New cd a r in
      case decodeSubChunks cd ridHashLookup hashedRids [0..<nat count] data c of
        Inl err \<Rightarrow> Some (Inl err)
      | Inr (c1, buf1) \<Rightarrow>
          (case (if oldBiomes
                 then (if buf1 = [] then Inl (Wrap ''error reading biomes'' EOF)
                       else Inr (setOldBiomes cd (take 256 buf1 @ replicate (256 - length buf1) 0) r c1,
                                 drop 256 buf1))
                 else decodeBiomeStorages cd NetworkEncoding [0..<length (chunk_sub c1)] None buf1 c1) of
             Inl err \<Rightarrow> Some (Inl err)
           | Inr (c2, buf2) \<Rightarrow>
               (case decodeBlockNBTs cd buf2 [] of
                  None \<Rightarrow> None
                | Some (Inl err) \<Rightarrow> Some (Inl err)
                | Some (Inr blockNBTs) \<Rightarrow> Some (Inr (c2, blockNBTs)))))"

text \<open>The loop of \<open>DiskDecode\<close> over the sub-chunk byte strings, \<open>i\<close> counting from 0.\<close>

fun decodeDiskSubChunks :: "codec \<Rightarrow> nat \<Rightarrow> bytes list \<Rightarrow> Chunk \<Rightarrow> error + Chunk" where
  "decodeDiskSubChunks cd i [] c = Inr c"
| "decodeDiskSubChunks cd i (s # rest) c =
     (if s = [] then decodeDiskSubChunks cd (Suc i) rest c
      else (case decodeSubChunk cd s c (of_nat i) DiskEncoding of
              (res, idx) \<Rightarrow>
                if length (chunk_sub c) \<le> unat idx then Inl (Panic ''index out of range'')
                else (case res of
                        Inl err \<Rightarrow> Inl err
                      | Inr (sc, buf1) \<Rightarrow>
                          decodeDiskSubChunks cd (Suc i) rest
                            (c\<lparr>chunk_sub := (chunk_sub c)[unat idx := sc]\<rparr>))))"

text \<open>
  \<open>DiskDecode\<close>. The runtime ID of air comes from \<open>StateToRuntimeID\<close>, the function variable
  that \<open>init\<close> of the world package sets to the registry lookup.
\<close>

definition DiskDecode :: "codec \<Rightarrow> registry \<Rightarrow> SerialisedData \<Rightarrow> int \<times> int \<Rightarrow> error + Chunk" where
  "DiskDecode cd reg data r =
     (case StateToRuntimeID reg ''minecraft:air'' None of
        Inl err \<Rightarrow> Inl err
      | Inr (a, ok) \<Rightarrow>
          if \<not> ok then Inl (Panic ''cannot find air runtime ID'')
          else (case decodeBiomes cd (Biomes data) (New cd a r) DiskEncoding of
                  Inl err \<Rightarrow> Inl err
                | Inr c \<Rightarrow> decodeDiskSubChunks cd 0 (SubChunks data) c))"


text \<open>
  A storage with every palette entry replaced by its image under the table, 0 where the
  table has no such key.
\<close>

definition hashedStorage :: "(u32 \<rightharpoonup> u32) \<Rightarrow> PalettedStorage \<Rightarrow> PalettedStorage" where
  "hashedStorage ridHashLookup st =
     st\<lparr>palette := (palette st)\<lparr>palette_values :=
       map (\<lambda>v. case ridHashLookup v of Some rid \<Rightarrow> rid | None \<Rightarrow> 0) (palette_values (palette st))\<rparr>\<rparr>"

text \<open>
  A sub-chunk with every storage so replaced; and the relation of a chunk \<open>c'\<close> decoded with
  hashed runtime IDs to the chunk \<open>c\<close> decoded without, both from the new chunk \<open>c0\<close>: they
  agree but for the sub-chunks, where every slot of \<open>c'\<close> is the replaced slot of \<open>c\<close>, or is
  in both the slot of \<open>c0\<close> that no round has written.
\<close>

definition hashedSubChunk :: "(u32 \<rightharpoonup> u32) \<Rightarrow> SubChunk \<Rightarrow> SubChunk" where
  "hashedSubChunk ridHashLookup s =
     s\<lparr>storages := map (map_option (hashedStorage ridHashLookup)) (storages s)\<rparr>"

definition hashed_of :: "(u32 \<rightharpoonup> u32) \<Rightarrow> Chunk \<Rightarrow> Chunk \<Rightarrow> Chunk \<Rightarrow> bool" where
  "hashed_of ridHashLookup c0 c c' \<longleftrightarrow>
     chunk_r c' = chunk_r c \<and> chunk_air c' = chunk_air c \<and> chunk_biomes c' = chunk_biomes c \<and>
     length (chunk_sub c') = length (chunk_sub c) \<and>
     (\<forall>k < length (chunk_sub c).
        chunk_sub c' ! k = hashedSubChunk ridHashLookup (chunk_sub c ! k) \<or>
        chunk_sub c' ! k = chunk_sub c0 ! k \<and> chunk_sub c ! k = chunk_sub c0 ! k)"

text \<open>
  The rounds of the first loop of \<open>NetworkDecode\<close> as it runs with \<open>hashedRids = false\<close>, up
  to the first round that fails: for each round the index it stores at and the sub-chunk it
  has decoded. \<open>storeSubChunks\<close> carries out such stores on the sub-chunks of a chunk, in
  order.
\<close>

fun subChunkRounds :: "codec \<Rightarrow> nat list \<Rightarrow> bytes \<Rightarrow> Chunk \<Rightarrow> (nat \<times> SubChunk) list" where
  "subChunkRounds cd [] buf c = []"
| "subChunkRounds cd (i # rest) buf c =
     (case decodeSubChunk cd buf c (of_nat i) NetworkEncoding of
        (res, idx) \<Rightarrow>
          if length (chunk_sub c) \<le> unat idx then []
          else (case res of
                  Inl err \<Rightarrow> []
                | Inr (s, buf1) \<Rightarrow>
                    (unat idx, s) #
                      subChunkRounds cd rest buf1 (c\<lparr>chunk_sub := (chunk_sub c)[unat idx := s]\<rparr>)))"

fun storeSubChunks :: "(nat \<times> SubChunk) list \<Rightarrow> SubChunk list \<Rightarrow> SubChunk list" where
  "storeSubChunks [] subs = subs"
| "storeSubChunks ((k, s) # rounds) subs = storeSubChunks rounds (subs[k := s])"

text \<open>A storage without indices whose palette has the one entry \<open>v\<close>.\<close>

definition example_storage :: "u32 \<Rightarrow> PalettedStorage" where
  "example_storage v = \<lparr>indices = [], palette = \<lparr>palette_size = 0, palette_values = [v]\<rparr>\<rparr>"

text \<open>
  A small codec for examples: the word count of the specification
  (\<open>ceil(4096 / floor(32 / bits))\<close>, and no words for 0 bits), a palette decoder that reads
  one byte as the only palette entry, a chunk of three empty sub-chunks, a \<open>SetBiome\<close>
  that keeps the biome of the column \<open>(0, 0)\<close> only, in the first biome slot, and an
  \<open>Encode\<close> that writes the version and the number of storages of every sub-chunk and a
  storage of no bits with the palette entry 0 for every biome slot.
\<close>

definition example_codec :: codec where
  "example_codec =
     \<lparr>uint32s = (\<lambda>p. if p = 0 then 0 else (4096 + 32 div unat p - 1) div (32 div unat p)),
      decodePalette = (\<lambda>e buf p pe.
        case buf of
          [] \<Rightarrow> (Inl EOF, [])
        | v # rest \<Rightarrow> (Inr \<lparr>palette_size = p, palette_values = [ucast v]\<rparr>, rest)),
      New = (\<lambda>a r. \<lparr>chunk_r = r, chunk_air = a,
                     chunk_sub = replicate 3 (NewSubChunk a), chunk_biomes = replicate 3 None\<rparr>),
      SetBiome = (\<lambda>c x y z b.
        if x = 0 \<and> z = 0 then c\<lparr>chunk_biomes := (chunk_biomes c)[0 := Some (example_storage b)]\<rparr>
        else c),
      Encode = (\<lambda>c. \<lparr>SubChunks = map (\<lambda>sc. [8, of_nat (length (storages sc))]) (chunk_sub c),
                     Biomes = concat (map (\<lambda>b. [1, 0]) (chunk_biomes c))\<rparr>),
      Range_Min = fst,
      Range_Max = snd,
      Range_Height = (\<lambda>r. snd r - fst r),
      nbt_decode_network = (\<lambda>buf. Inl ErrCodec)\<rparr>"

definition example_chunk :: Chunk where
  "example_chunk = New example_codec 0 (0, 47)"

text \<open>
  Network data of one sub-chunk of version 8 with two storages (palettes 9 and 4), followed
  by three biome storages (palette 5, then two inherit markers); and the chunk decoded from
  it, with the palettes of the two block storages as given.
\<close>

definition example_data :: bytes where
  "example_data = [8, 2, 1, 9, 1, 4, 1, 5, 0xFF, 0xFF]"

definition example_decoded :: "u32 \<Rightarrow> u32 \<Rightarrow> Chunk" where
  "example_decoded v w =
     \<lparr>chunk_r = (0, 47), chunk_air = 0,
      chunk_sub = [\<lparr>sub_air = 0, storages = [Some (example_storage v), Some (example_storage w)]\<rparr>,
                   NewSubChunk 0, NewSubChunk 0],
      chunk_biomes = [Some (example_storage 5), Some (example_storage 5), Some (example_storage 5)]\<rparr>"



section \<open>The key/value store\<close>

text \<open>
  The LevelDB handle \<open>db.ldb\<close>: the stored pairs, and the failures from outside. Every call
  of \<open>Get\<close>, \<open>Put\<close> or \<open>Delete\<close> advances \<open>clock\<close>; \<open>faults n op\<close> says whether call
  number \<open>n\<close>, when it is the operation \<open>op\<close>, fails with a store error. A failed call leaves
  the pairs as they are. \<open>Get\<close> of a missing key is \<open>leveldb.ErrNotFound\<close>; \<open>Delete\<close> of a
  missing key is no error.

  The value that \<open>Get\<close> returns is a Go slice, and a slice expression \<open>v[i:j]\<close> is checked
  against the capacity of \<open>v\<close>, not against its length. \<open>spare n k\<close> is what the array of the
  value holds behind the value, up to that capacity, when call number \<open>n\<close> is \<open>Get\<close> of the
  key \<open>k\<close>; \<open>behind l k\<close> is what lies behind the value that the next call returns.
\<close>

datatype store_op = OpGet bytes | OpPut bytes bytes | OpDelete bytes

record leveldb =
  kv :: "bytes \<rightharpoonup> bytes"
  clock :: nat
  faults :: "nat \<Rightarrow> store_op \<Rightarrow> bool"
  spare :: "nat \<Rightarrow> bytes \<Rightarrow> bytes"

definition Get :: "leveldb \<Rightarrow> bytes \<Rightarrow> (error + bytes) \<times> leveldb" where
  "Get l k =
     (if faults l (clock l) (OpGet k) then Inl ErrStore
      else (case kv l k of None \<Rightarrow> Inl ErrNotFound | Some v \<Rightarrow> Inr v),
      l\<lparr>clock := Suc (clock l)\<rparr>)"

definition behind :: "leveldb \<Rightarrow> bytes \<Rightarrow> bytes" where
  "behind l k = spare l (clock l) k"

definition Put :: "leveldb \<Rightarrow> bytes \<Rightarrow> bytes \<Rightarrow> error option \<times> leveldb" where
  "Put l k v =
     (if faults l (clock l) (OpPut k v) then (Some ErrStore, l\<lparr>clock := Suc (clock l)\<rparr>)
      else (None, l\<lparr>kv := (kv l)(k \<mapsto> v), clock := Suc (clock l)\<rparr>))"

definition Delete :: "leveldb \<Rightarrow> bytes \<Rightarrow> error option \<times> leveldb" where
  "Delete l k =
     (if faults l (clock l) (OpDelete k) then (Some ErrStore, l\<lparr>clock := Suc (clock l)\<rparr>)
      else (None, l\<lparr>kv := (kv l)(k := None), clock := Suc (clock l)\<rparr>))"

section \<open>The world provider (mcdb/db.go)\<close>

text \<open>
  An entity type: \<open>SaveableType\<close> is a type that implements \<open>world.SaveableEntityType\<close>, with
  its three methods; \<open>PlainType\<close> is one that does not. \<open>DecodeNBT\<close> may return nil.
\<close>

datatype 'e EntityType =
    PlainType
  | SaveableType (EncodeEntity: string) (DecodeNBT: "nbtmap \<Rightarrow> 'e option") (EncodeNBT: "'e \<Rightarrow> nbtmap")

text \<open>
  What the provider takes from outside the modelled files: the codec and the registry behind
  \<open>chunk.StateToRuntimeID\<close>; the key bytes and the chunk version of the package (constants
  whose declarations are not among the modelled files); \<open>Range\<close> of a dimension is modelled
  below; one call of \<open>Decode\<close> and of \<open>Encode\<close> of the NBT library (little endian);
  \<open>rand.Int63\<close> as a function of the number of calls made so far; and \<open>Type\<close> of an entity.
\<close>

record 'e provider =
  chunk_codec :: codec
  block_registry :: registry
  keyVersion :: byte
  keyVersionOld :: byte
  key3DData :: byte
  keySubChunkData :: byte
  keyFinalisation :: byte
  keyEntities :: byte
  keyBlockEntities :: byte
  chunkVersion :: byte
  nbt_decode :: "bytes \<Rightarrow> error + (nbtmap \<times> bytes)"
  nbt_encode :: "nbtmap \<Rightarrow> error + bytes"
  Int63 :: "nat \<Rightarrow> u64"
  Type :: "'e \<Rightarrow> 'e EntityType"

text \<open>
  The state a call works on: the store, the lines written to the logger \<open>db.conf.Log\<close>, and
  the number of calls of \<open>rand.Int63\<close> so far.
\<close>

record DB =
  ldb :: leveldb
  Log :: "string list"
  rand_calls :: nat

text \<open>\<open>Range\<close> of the dimensions (world/dimension.go).\<close>

fun Range :: "Dimension \<Rightarrow> int \<times> int" where
  "Range (overworld l) = (if l then (0, 255) else (-64, 319))"
| "Range nether = (0, 127)"
| "Range end_dim = (0, 255)"
| "Range nopDim = (0, 0)"

text \<open>The bytes of a Go string literal used as a key prefix.\<close>

definition string_bytes :: "string \<Rightarrow> bytes" where
  "string_bytes s = map (\<lambda>c. of_nat (of_char c)) s"

text \<open>\<open>binary.LittleEndian.AppendUint64\<close> and \<open>binary.LittleEndian.Uint64\<close>.\<close>

definition AppendUint64 :: "bytes \<Rightarrow> u64 \<Rightarrow> bytes" where
  "AppendUint64 b v = b @ map (\<lambda>i. ucast (drop_bit (8 * i) v)) [0..<8]"

definition Uint64 :: "bytes \<Rightarrow> u64" where
  "Uint64 b = foldr (\<lambda>x acc. ucast x OR push_bit 8 acc) (take 8 b) 0"

definition actorIndex :: "u64 \<Rightarrow> bytes" where
  "actorIndex uniqueID = AppendUint64 (string_bytes ''actorprefix'') uniqueID"

subsection \<open>Chunks\<close>

text \<open>
  The loop of \<open>SaveChunk\<close> over the encoded sub-chunks, \<open>i\<close> counting from 0; the result of
  each \<open>Put\<close> is assigned to the blank identifier.
\<close>

fun putSubChunks :: "'e provider \<Rightarrow> bytes \<Rightarrow> int \<Rightarrow> nat \<Rightarrow> bytes list \<Rightarrow> leveldb \<Rightarrow> leveldb" where
  "putSubChunks pv key r0 i [] l = l"
| "putSubChunks pv key r0 i (s # rest) l =
     putSubChunks pv key r0 (Suc i) rest
       (snd (Put l (key @ [keySubChunkData pv, word_of_int (int i + r0 div 16)]) s))"

text \<open>\<open>SaveChunk\<close>: the returned error and the state after the call.\<close>

definition SaveChunk :: "'e provider \<Rightarrow> DB \<Rightarrow> ChunkPos \<Rightarrow> Chunk \<Rightarrow> Dimension \<Rightarrow> error option \<times> DB" where
  "SaveChunk pv db position c dim =
     (let data = Encode (chunk_codec pv) c;
          key = index position dim;
          l1 = snd (Put (ldb db) (key @ [keyVersion pv]) [chunkVersion pv]);
          l2 = snd (Put l1 (key @ [key3DData pv]) (replicate 512 0 @ Biomes data));
          finalisation = PutUint32 (replicate 4 0) 0 2;
          l3 = snd (Put l2 (key @ [keyFinalisation pv]) finalisation);
          l4 = putSubChunks pv key (fst (chunk_r c)) 0 (SubChunks data) l3
      in (None, db\<lparr>ldb := l4\<rparr>))"

text \<open>
  The loop of \<open>LoadChunk\<close> that reads the sub-chunk slots, over the indices still to visit:
  a missing slot stays nil (the empty byte string), any other error ends the call.
\<close>

fun getSubChunks ::
  "'e provider \<Rightarrow> bytes \<Rightarrow> int \<Rightarrow> nat list \<Rightarrow> leveldb \<Rightarrow> (error + bytes list) \<times> leveldb" where
  "getSubChunks pv key r0 [] l = (Inr [], l)"
| "getSubChunks pv key r0 (i # rest) l =
     (case Get l (key @ [keySubChunkData pv, word_of_int (int i + r0 div 16)]) of
        (Inl err, l1) \<Rightarrow>
          if err = ErrNotFound
          then (case getSubChunks pv key r0 rest l1 of
                  (Inl err1, l2) \<Rightarrow> (Inl err1, l2)
                | (Inr ss, l2) \<Rightarrow> (Inr ([] # ss), l2))
          else (Inl (Wrap ''error reading sub chunk data'' err), l1)
      | (Inr v, l1) \<Rightarrow>
          (case getSubChunks pv key r0 rest l1 of
             (Inl err1, l2) \<Rightarrow> (Inl err1, l2)
           | (Inr ss, l2) \<Rightarrow> (Inr (v # ss), l2)))"

text \<open>
  \<open>LoadChunk\<close> after the version keys have been read: the biome blob, the sub-chunk slots and
  the decoding.
\<close>

definition loadChunkData ::
  "'e provider \<Rightarrow> DB \<Rightarrow> bytes \<Rightarrow> Dimension \<Rightarrow> (Chunk option \<times> bool \<times> error option) \<times> DB" where
  "loadChunkData pv db key dim =
     (case Get (ldb db) (key @ [key3DData pv]) of
        (r3d, l1) \<Rightarrow>
          (case (case r3d of
                   Inl err \<Rightarrow> if err = ErrNotFound then Inr [] else Inl err
                 | Inr v \<Rightarrow> Inr v) of
             Inl err \<Rightarrow> ((None, True, Some (Wrap ''error reading 3D data'' err)), db\<lparr>ldb := l1\<rparr>)
           | Inr b \<Rightarrow>
               (let biomes = (if length b > 512 then drop 512 b else b);
                    n = nat (Range_Height (chunk_codec pv) (Range dim) div 16 + 1)
                in case getSubChunks pv key (fst (Range dim)) [0..<n] l1 of
                     (Inl err, l2) \<Rightarrow> ((None, True, Some err), db\<lparr>ldb := l2\<rparr>)
                   | (Inr ss, l2) \<Rightarrow>
                       (case DiskDecode (chunk_codec pv) (block_registry pv)
                               \<lparr>SubChunks = ss, Biomes = biomes\<rparr> (Range dim) of
                          Inl err \<Rightarrow> ((None, True, Some err), db\<lparr>ldb := l2\<rparr>)
                        | Inr c \<Rightarrow> ((Some c, True, None), db\<lparr>ldb := l2\<rparr>)))))"

text \<open>
  \<open>LoadChunk\<close>: the chunk (\<open>None\<close> is nil), \<open>exists\<close>, the error, and the state after the
  call. The first \<open>Get\<close> distinguishes \<open>ErrNotFound\<close> from the other errors; the \<open>Get\<close> of the
  old version key tests \<open>err != nil\<close> only.
\<close>

definition LoadChunk ::
  "'e provider \<Rightarrow> DB \<Rightarrow> ChunkPos \<Rightarrow> Dimension \<Rightarrow> (Chunk option \<times> bool \<times> error option) \<times> DB" where
  "LoadChunk pv db position dim =
     (let key = index position dim in
      case Get (ldb db) (key @ [keyVersion pv]) of
        (Inl err, l1) \<Rightarrow>
          if err = ErrNotFound
          then (case Get l1 (key @ [keyVersionOld pv]) of
                  (Inl err1, l2) \<Rightarrow> ((None, False, None), db\<lparr>ldb := l2\<rparr>)
                | (Inr v, l2) \<Rightarrow> loadChunkData pv (db\<lparr>ldb := l2\<rparr>) key dim)
          else ((None, True, Some (Wrap ''error reading version'' err)), db\<lparr>ldb := l1\<rparr>)
      | (Inr v, l1) \<Rightarrow> loadChunkData pv (db\<lparr>ldb := l1\<rparr>) key dim)"

subsection \<open>Entities\<close>

text \<open>
  \<open>loadEntity\<close>: the entity (\<open>None\<close> is nil) and the state after the call. An identifier that
  is not a string reads as the empty name (\<open>name, _ := id.(string)\<close>).
\<close>

definition loadEntity ::
  "'e provider \<Rightarrow> DB \<Rightarrow> nbtmap \<Rightarrow> ChunkPos \<Rightarrow> (string \<Rightarrow> 'e EntityType option) \<Rightarrow> 'e option \<times> DB" where
  "loadEntity pv db m pos reg =
     (case m ''identifier'' of
        None \<Rightarrow>
          (None, db\<lparr>Log := Log db @ [''load entities: failed loading: entity had data but no identifier'']\<rparr>)
      | Some ident \<Rightarrow>
          (let name = (case ident of NString s \<Rightarrow> s | _ \<Rightarrow> []) in
           case reg name of
             None \<Rightarrow>
               (None, db\<lparr>Log := Log db @ [''load entities: failed loading: entity was not registered'']\<rparr>)
           | Some t \<Rightarrow>
               (case t of
                  PlainType \<Rightarrow> (None, db)
                | SaveableType ident_t decode_t encode_t \<Rightarrow>
                    (if m ''UniqueID'' = None
                     then (decode_t (m(''UniqueID'' \<mapsto> NInt64 (Int63 pv (rand_calls db)))),
                           db\<lparr>rand_calls := Suc (rand_calls db)\<rparr>)
                     else (decode_t m, db)))))"





text \<open>
  The loop of \<open>SaveEntities\<close> that reads the unique IDs stored under the \<open>digp\<close> key, eight
  bytes at a time; \<open>digpPrev[i : i+8]\<close> is bounded by the capacity, as in \<open>LoadEntities\<close>.
\<close>

function readUniqueIDs :: "bytes \<Rightarrow> bytes \<Rightarrow> error + u64 list" where
  "readUniqueIDs digpPrev sp =
     (if digpPrev = [] then Inr []
      else if length (digpPrev @ sp) < 8 then Inl (Panic ''slice bounds out of range'')
      else (case readUniqueIDs (drop 8 digpPrev) sp of
              Inl err \<Rightarrow> Inl err
            | Inr ids \<Rightarrow> Inr (Uint64 (take 8 (digpPrev @ sp)) # ids)))"
  by pat_completeness auto
termination
  by (relation "measure (\<lambda>(digpPrev, sp). length digpPrev)") auto

declare readUniqueIDs.simps [simp del]

text \<open>
  The loop of \<open>SaveEntities\<close> over the entities: an entity whose type is not saveable is
  passed over; the others are encoded and written under their actor key. The result is the
  error or the unique IDs written, and the state.
\<close>

fun putEntities :: "'e provider \<Rightarrow> 'e list \<Rightarrow> DB \<Rightarrow> u64 list \<Rightarrow> (error + u64 list) \<times> DB" where
  "putEntities pv [] db uniqueIDs = (Inr uniqueIDs, db)"
| "putEntities pv (e # rest) db uniqueIDs =
     (case Type pv e of
        PlainType \<Rightarrow> putEntities pv rest db uniqueIDs
      | SaveableType ident_t decode_t encode_t \<Rightarrow>
          (let x = (encode_t e)(''identifier'' \<mapsto> NString ident_t) in
           case nbt_encode pv x of
             Inl err \<Rightarrow> (Inl (Wrap ''save entities: error encoding NBT'' err), db)
           | Inr buf \<Rightarrow>
               (case (case x ''UniqueID'' of
                        Some (NInt64 u) \<Rightarrow> (u, db)
                      | _ \<Rightarrow> (Int63 pv (rand_calls db), db\<lparr>rand_calls := Suc (rand_calls db)\<rparr>)) of
                  (uniqueID, db1) \<Rightarrow>
                    (case Put (ldb db1) (actorIndex uniqueID) buf of
                       (Some err, l1) \<Rightarrow>
                         (Inl (Wrap ''save entities: error Adding to db'' err), db1\<lparr>ldb := l1\<rparr>)
                     | (None, l1) \<Rightarrow>
                         putEntities pv rest (db1\<lparr>ldb := l1\<rparr>) (uniqueIDs @ [uniqueID])))))"

text \<open>
  The loop that removes the actor records of the IDs no longer listed; the result of
  \<open>Delete\<close> is not looked at.
\<close>

fun deleteUnreferenced :: "u64 list \<Rightarrow> u64 list \<Rightarrow> leveldb \<Rightarrow> leveldb" where
  "deleteUnreferenced [] uniqueIDs l = l"
| "deleteUnreferenced (uniqueID # rest) uniqueIDs l =
     deleteUnreferenced rest uniqueIDs
       (if uniqueID \<notin> set uniqueIDs then snd (Delete l (actorIndex uniqueID)) else l)"

text \<open>\<open>SaveEntities\<close>: the returned error and the state after the call.\<close>

definition SaveEntities ::
  "'e provider \<Rightarrow> DB \<Rightarrow> ChunkPos \<Rightarrow> 'e list \<Rightarrow> Dimension \<Rightarrow> error option \<times> DB" where
  "SaveEntities pv db pos entities dim =
     (let digpKey = string_bytes ''digp'' @ index pos dim in
      case Get (ldb db) digpKey of
        (r, l1) \<Rightarrow>
          (case (case r of
                   Inl err \<Rightarrow> if err = ErrNotFound then Inr [] else Inl err
                 | Inr digpPrev \<Rightarrow> readUniqueIDs digpPrev (behind (ldb db) digpKey)) of
             Inl err \<Rightarrow> (Some err, db\<lparr>ldb := l1\<rparr>)
           | Inr previousUniqueIDs \<Rightarrow>
               (case putEntities pv entities (db\<lparr>ldb := l1\<rparr>) [] of
                  (Inl err, db1) \<Rightarrow> (Some err, db1)
                | (Inr uniqueIDs, db1) \<Rightarrow>
                    (let l2 = deleteUnreferenced previousUniqueIDs uniqueIDs (ldb db1) in
                     if entities = []
                     then (case Delete l2 digpKey of (err, l3) \<Rightarrow> (err, db1\<lparr>ldb := l3\<rparr>))
                     else
                       (let digp = foldl AppendUint64 [] uniqueIDs in
                        case Put l2 digpKey digp of
                          (Some err, l3) \<Rightarrow>
                            (Some (Wrap ''save entities: error Adding to db'' err), db1\<lparr>ldb := l3\<rparr>)
                        | (None, l3) \<Rightarrow>
                            (None, db1\<lparr>ldb := snd (Delete l3 (index pos dim @ [keyEntities pv]))\<rparr>))))))"


subsection \<open>A small provider for examples\<close>

text \<open>
  Entities are numbers: 0 has a type that is not saveable, every other number \<open>n\<close> is a pig
  with unique ID \<open>n\<close>. The NBT codec of the example writes a pig as the byte of its unique
  ID; it reads the byte 0 as a decoding error, the byte 255 as a compound without
  identifier, the byte 254 as a compound of an identifier that is not registered, the byte
  253 as a compound of a registered type that is not saveable, the byte 252 as a pig whose
  unique ID is not a number (the \<open>DecodeNBT\<close> of a pig returns nil for it), and any other
  byte as a pig. The key bytes are those of the Bedrock format.
\<close>

definition pig_type :: "nat EntityType" where
  "pig_type =
     SaveableType ''pig''
       (\<lambda>m. case m ''UniqueID'' of Some (NInt64 u) \<Rightarrow> Some (unat u) | _ \<Rightarrow> None)
       (\<lambda>e. [''UniqueID'' \<mapsto> NInt64 (of_nat e)])"


definition pig_record :: "byte \<Rightarrow> nbtmap" where
  "pig_record b = [''identifier'' \<mapsto> NString ''pig'', ''UniqueID'' \<mapsto> NInt64 (ucast b)]"

definition ghost_record :: nbtmap where
  "ghost_record = [''identifier'' \<mapsto> NString ''ghost'']"

definition rock_record :: nbtmap where
  "rock_record = [''identifier'' \<mapsto> NString ''rock'']"

definition lame_record :: nbtmap where
  "lame_record = [''identifier'' \<mapsto> NString ''pig'', ''UniqueID'' \<mapsto> NString ''x'']"

definition example_nbt_decode :: "bytes \<Rightarrow> error + (nbtmap \<times> bytes)" where
  "example_nbt_decode buf =
     (case buf of
        [] \<Rightarrow> Inl EOF
      | b # rest \<Rightarrow>
          if b = 0 then Inl ErrCodec
          else if b = 255 then Inr (Map.empty, rest)
          else if b = 254 then Inr (ghost_record, rest)
          else if b = 253 then Inr (rock_record, rest)
          else if b = 252 then Inr (lame_record, rest)
          else Inr (pig_record b, rest))"

definition example_nbt_encode :: "nbtmap \<Rightarrow> error + bytes" where
  "example_nbt_encode x =
     (case x ''UniqueID'' of Some (NInt64 u) \<Rightarrow> Inr [ucast u] | _ \<Rightarrow> Inl ErrCodec)"

definition example_provider :: "nat provider" where
  "example_provider =
     \<lparr>chunk_codec = example_codec, block_registry = example_registry,
      keyVersion = 0x2C, keyVersionOld = 0x76, key3DData = 0x2B, keySubChunkData = 0x2F,
      keyFinalisation = 0x36, keyEntities = 0x32, keyBlockEntities = 0x31, chunkVersion = 40,
      nbt_decode = example_nbt_decode, nbt_encode = example_nbt_encode,
      Int63 = of_nat,
      Type = (\<lambda>e. if e = 0 then PlainType else pig_type)\<rparr>"

text \<open>
  States: a store that holds the given pairs and never fails, and one on which the calls
  that \<open>bad\<close> names fail. The values it returns have no spare capacity.
\<close>

definition db_of :: "(bytes \<times> bytes) list \<Rightarrow> (store_op \<Rightarrow> bool) \<Rightarrow> DB" where
  "db_of pairs bad =
     \<lparr>ldb = \<lparr>kv = map_of pairs, clock = 0, faults = (\<lambda>n. bad), spare = (\<lambda>n k. [])\<rparr>,
      Log = [], rand_calls = 0\<rparr>"

definition is_put :: "store_op \<Rightarrow> bool" where
  "is_put op = (case op of OpPut k v \<Rightarrow> True | _ \<Rightarrow> False)"

text \<open>The old version key of the chunk at \<open>(0, 0)\<close> of the overworld.\<close>

definition legacy_key :: bytes where
  "legacy_key = index (0, 0) Overworld @ [keyVersionOld example_provider]"






text \<open>
  Every compound of a list is given to \<open>loadEntity\<close> in turn, and the entities that come
  back are collected; a nil result adds nothing.
\<close>

fun loadRecords ::
  "'e provider \<Rightarrow> ChunkPos \<Rightarrow> (string \<Rightarrow> 'e EntityType option) \<Rightarrow> nbtmap list \<Rightarrow> DB \<Rightarrow> 'e list \<Rightarrow>
     'e list \<times> DB" where
  "loadRecords pv pos reg [] db a = (a, db)"
| "loadRecords pv pos reg (m # ms) db a =
     (case loadEntity pv db m pos reg of
        (e, db1) \<Rightarrow> loadRecords pv pos reg ms db1 (case e of None \<Rightarrow> a | Some v \<Rightarrow> a @ [v]))"

section \<open>Properties of the chunk index key\<close>

text \<open>The registered IDs do not depend on the order in which the map is walked.\<close>

lemma registerIDs_map_of:
  "registerIDs dim ids = ids ++ map_of (rev (map (\<lambda>(k, v). (v, registeredID k v)) dim))"
proof (induction dim ids rule: registerIDs.induct)
  case (1 ids)
  then show ?case by simp
next
  case (2 k v rest ids)
  have "ids(v \<mapsto> registeredID k v) = ids ++ map_of [(v, registeredID k v)]"
    by simp
  with 2 show ?case
    by (simp del: map_of.simps add: map_add_assoc)
qed

lemma registerIDs_order:
  assumes "distinct (map snd dim)" "distinct (map snd dim')" "set dim = set dim'"
  shows "registerIDs dim ids = registerIDs dim' ids"
proof -
  have fst_eq: "map fst (rev (map (\<lambda>(k, v). (v, registeredID k v)) d)) = rev (map snd d)" for d
    by (simp add: rev_map comp_def split_def)
  have "map_of (rev (map (\<lambda>(k, v). (v, registeredID k v)) dim)) =
        map_of (rev (map (\<lambda>(k, v). (v, registeredID k v)) dim'))"
    using assms by (subst map_of_inject_set) (simp_all add: fst_eq)
  then show ?thesis
    by (simp add: registerIDs_map_of)
qed


lemma IDs_dimensionReg:
  "IDs dimensionReg = [overworld False \<mapsto> 0, nether \<mapsto> 1, end_dim \<mapsto> 2, overworld True \<mapsto> 0]"
  by (simp add: dimensionReg_def newDimensionRegistry_def Overworld_def Nether_def End_def
        Overworld_legacy_def)

lemma DimensionID_cases:
  "DimensionID d =
     (case d of overworld b \<Rightarrow> (0, True) | nether \<Rightarrow> (1, True) | end_dim \<Rightarrow> (2, True)
      | nopDim \<Rightarrow> (0, False))"
  by (cases d) (auto simp: DimensionID_def LookupID_def IDs_dimensionReg)

lemma index_eq:
  "index (x, z) d =
     little_endian_u32 x @ little_endian_u32 z @
       (if fst (DimensionID d) \<noteq> 0 then little_endian_u32 (word_of_int (fst (DimensionID d)))
        else [])"
  by (simp add: index_def PutUint32_def little_endian_u32_def Let_def eval_nat_numeral)

text \<open>
  C9. For every chunk position \<open>(x, z)\<close> and every registered dimension, the chunk index key
  is the little-endian u32 of \<open>x\<close>, then the little-endian u32 of \<open>z\<close>, then the little-endian
  u32 of the dimension ID exactly when that ID is not zero, so the key has 8 or 12 bytes; the
  legacy overworld is registered with ID 0 and has the 8-byte key.
\<close>

theorem index_key_layout:
  "registered d \<Longrightarrow>
     index (x, z) d =
       little_endian_u32 x @ little_endian_u32 z @
         (if fst (DimensionID d) \<noteq> 0
          then little_endian_u32 (word_of_int (fst (DimensionID d))) else []) \<and>
     length (index (x, z) d) = (if fst (DimensionID d) \<noteq> 0 then 12 else 8) \<and>
     DimensionID Overworld_legacy = (0, True) \<and>
     index (x, z) Overworld_legacy = little_endian_u32 x @ little_endian_u32 z"
  by (simp add: index_eq DimensionID_cases Overworld_legacy_def little_endian_u32_def)

theorem index_key_layout_witness:
  "registered Nether \<and>
   index (1, 2) Nether = [1, 0, 0, 0, 2, 0, 0, 0, 1, 0, 0, 0] \<and>
   length (index (1, 2) Nether) = 12 \<and>
   index (1, 2) Overworld_legacy = [1, 0, 0, 0, 2, 0, 0, 0]"
  using index_key_layout [of Nether 1 2]
  by (simp add: registered_def DimensionID_cases Nether_def little_endian_u32_def)

section \<open>Properties of the canonical hash\<close>

lemma byte_char_inj: "byte_char a = byte_char b \<longleftrightarrow> a = b"
proof -
  have "unat a mod 256 = unat a" "unat b mod 256 = unat b"
    using unsigned_less [of a, where 'a = nat] unsigned_less [of b, where 'a = nat] by simp_all
  then show ?thesis
    by (auto simp: byte_char_def word_unat_eq_iff)
qed

lemma le32_rebuild:
  "(ucast (ucast v :: byte) :: u32) OR push_bit 8 (ucast (ucast (drop_bit 8 v) :: byte))
     OR push_bit 16 (ucast (ucast (drop_bit 16 v) :: byte))
     OR push_bit 24 (ucast (ucast (drop_bit 24 v) :: byte)) = v"
proof (rule bit_word_eqI)
  fix n
  assume "n < LENGTH(32)"
  then show "bit (ucast (ucast v :: byte) OR push_bit 8 (ucast (ucast (drop_bit 8 v) :: byte))
     OR push_bit 16 (ucast (ucast (drop_bit 16 v) :: byte))
     OR push_bit 24 (ucast (ucast (drop_bit 24 v) :: byte)) :: u32) n = bit v n"
    by (cases "n < 8"; cases "n < 16"; cases "n < 24") (auto simp: bit_simps)
qed

lemma little_endian_u32_inj: "little_endian_u32 v = little_endian_u32 w \<longleftrightarrow> v = w"
proof
  assume "little_endian_u32 v = little_endian_u32 w"
  then have "(ucast v :: byte) = ucast w" "(ucast (drop_bit 8 v) :: byte) = ucast (drop_bit 8 w)"
    "(ucast (drop_bit 16 v) :: byte) = ucast (drop_bit 16 w)"
    "(ucast (drop_bit 24 v) :: byte) = ucast (drop_bit 24 w)"
    by (simp_all add: little_endian_u32_def)
  then have "(ucast (ucast v :: byte) :: u32) OR push_bit 8 (ucast (ucast (drop_bit 8 v) :: byte))
     OR push_bit 16 (ucast (ucast (drop_bit 16 v) :: byte))
     OR push_bit 24 (ucast (ucast (drop_bit 24 v) :: byte)) =
     (ucast (ucast w :: byte) :: u32) OR push_bit 8 (ucast (ucast (drop_bit 8 w) :: byte))
     OR push_bit 16 (ucast (ucast (drop_bit 16 w) :: byte))
     OR push_bit 24 (ucast (ucast (drop_bit 24 w) :: byte))"
    by (simp only:)
  then show "v = w"
    by (simp only: le32_rebuild)
qed simp

lemma writeProperty_inj:
  "layout a \<noteq> None \<Longrightarrow> layout a = layout b \<Longrightarrow> writeProperty a = writeProperty b \<Longrightarrow> a = b"
  by (cases a rule: layout.cases; cases b rule: layout.cases)
     (auto simp: byte_char_inj little_endian_u32_inj inj_on_def dest: map_inj_on [where f = byte_char] split: if_splits)

lemma writeProperties_cong:
  "\<forall>k \<in> set ks. map_of p k = map_of q k \<Longrightarrow> writeProperties p ks b = writeProperties q ks b"
  by (induction ks arbitrary: b) (auto split: sum.splits)

lemma keys_of_map_of:
  "map_of p = map_of q \<Longrightarrow> set (map fst p) = set (map fst q)"
  by (metis dom_map_of_conv_image_fst set_map)

lemma sorted_keys_eq:
  assumes "distinct (map fst p)" "distinct (map fst q)" "set (map fst p) = set (map fst q)"
  shows "sort (map fst p) = sort (map fst q)"
  by (rule sorted_distinct_set_unique) (use assms in simp_all)

lemma hashProperties_map_of:
  assumes "distinct (map fst p)" "distinct (map fst q)" "map_of p = map_of q"
  shows "hashProperties (Some p) = hashProperties (Some q)"
proof -
  have "sort (map fst p) = sort (map fst q)"
    using assms by (intro sorted_keys_eq keys_of_map_of)
  moreover have "writeProperties p ks [] = writeProperties q ks []" for ks
    using assms(3) by (intro writeProperties_cong) simp
  ultimately show ?thesis
    by (simp add: hashProperties_def)
qed

lemma writeProperty_layout:
  "layout a = Some (t, n) \<Longrightarrow> \<exists>s. writeProperty a = Inr s \<and> length s = n"
  by (cases a rule: layout.cases) (auto simp: little_endian_u32_def)

lemma writeProperties_concat:
  "\<forall>k \<in> set ks. layout (map_of p k) \<noteq> None \<Longrightarrow>
     writeProperties p ks b = Inr (b @ concat (map (enc p) ks))"
proof (induction ks arbitrary: b)
  case Nil
  then show ?case by simp
next
  case (Cons k ks)
  then obtain t n where "layout (map_of p k) = Some (t, n)"
    by auto
  then obtain s where "writeProperty (map_of p k) = Inr s"
    using writeProperty_layout by blast
  with Cons show ?case
    by (simp add: enc_def)
qed

lemma enc_length:
  "layout (map_of p k) \<noteq> None \<Longrightarrow> layout (map_of p k) = layout (map_of q k) \<Longrightarrow>
     length (enc p k) = length (enc q k)"
  by (cases "map_of p k" rule: layout.cases; cases "map_of q k" rule: layout.cases)
     (auto simp: enc_def little_endian_u32_def)

lemma enc_inj:
  assumes "layout (map_of p k) \<noteq> None" "layout (map_of p k) = layout (map_of q k)"
    "enc p k = enc q k"
  shows "map_of p k = map_of q k"
proof -
  obtain t n where l: "layout (map_of p k) = Some (t, n)" "layout (map_of q k) = Some (t, n)"
    using assms by auto
  then obtain s s' where "writeProperty (map_of p k) = Inr s" "writeProperty (map_of q k) = Inr s'"
    using writeProperty_layout by blast
  with assms(3) have "writeProperty (map_of p k) = writeProperty (map_of q k)"
    by (simp add: enc_def)
  with assms(1,2) show ?thesis
    by (rule writeProperty_inj)
qed

lemma hashProperties_same_layout:
  assumes "distinct (map fst p)" "distinct (map fst q)" "same_layout p q"
    "hashProperties (Some p) = hashProperties (Some q)"
  shows "map_of p = map_of q"
proof -
  let ?ks = "sort (map fst p)"
  have keys: "set (map fst p) = set (map fst q)"
    and lay: "\<And>k. k \<in> set (map fst p) \<Longrightarrow>
      layout (map_of p k) \<noteq> None \<and> layout (map_of p k) = layout (map_of q k)"
    using assms(3) unfolding same_layout_def by blast+
  have ks: "sort (map fst q) = ?ks"
    using assms(1,2) keys by (intro sorted_keys_eq) simp_all
  have layp: "\<forall>k \<in> set ?ks. layout (map_of p k) \<noteq> None"
    and layq: "\<forall>k \<in> set ?ks. layout (map_of q k) \<noteq> None"
  proof -
    have "layout (map_of p k) \<noteq> None \<and> layout (map_of q k) \<noteq> None" if "k \<in> set ?ks" for k
    proof -
      from that have "k \<in> set (map fst p)" by simp
      from lay [OF this] show ?thesis by metis
    qed
    then show "\<forall>k \<in> set ?ks. layout (map_of p k) \<noteq> None"
      and "\<forall>k \<in> set ?ks. layout (map_of q k) \<noteq> None"
      by blast+
  qed
  have "concat (map (enc p) ?ks) = concat (map (enc q) ?ks)"
    using assms(4) writeProperties_concat [OF layp, of "[]"] writeProperties_concat [OF layq, of "[]"]
    by (simp add: hashProperties_def ks)
  moreover have len: "length (enc p k) = length (enc q k)" if "k \<in> set ?ks" for k
  proof -
    from that have "k \<in> set (map fst p)" by simp
    from lay [OF this] show ?thesis by (intro enc_length) blast+
  qed
  then have "\<forall>(x, y) \<in> set (zip (map (enc p) ?ks) (map (enc q) ?ks)). length x = length y"
    by (auto simp: zip_map_map zip_same)
  ultimately have "map (enc p) ?ks = map (enc q) ?ks"
    by (intro concat_injective) simp_all
  then have encs: "enc p k = enc q k" if "k \<in> set ?ks" for k
    using that by (simp only: map_eq_conv)
  have same: "map_of p k = map_of q k" if "k \<in> set (map fst p)" for k
  proof -
    from that have "k \<in> set ?ks" by simp
    from lay [OF that] encs [OF this] show ?thesis by (intro enc_inj) blast+
  qed
  show ?thesis
  proof
    fix k
    show "map_of p k = map_of q k"
    proof (cases "k \<in> set (map fst p)")
      case True
      then show ?thesis by (rule same)
    next
      case False
      then have "map_of p k = None" "map_of q k = None"
        using keys by (simp_all add: map_of_eq_None_iff)
      then show ?thesis by simp
    qed
  qed
qed

text \<open>
  C1 (as amended). Two property maps with the same key set and equal values at every key
  have the same hash, whatever the order in which their entries are walked. The converse
  holds between maps that have the same key set and, at every key, values of the same type
  and the same encoded length; it does not hold in general, because the hash is the
  concatenation of the encoded values in key order and records neither the keys, nor the
  types, nor the lengths.
\<close>

theorem hashProperties_canonical:
  "distinct (map fst p) \<Longrightarrow> distinct (map fst q) \<Longrightarrow>
     (map_of p = map_of q \<longrightarrow> hashProperties (Some p) = hashProperties (Some q)) \<and>
     (same_layout p q \<longrightarrow>
        (hashProperties (Some p) = hashProperties (Some q) \<longleftrightarrow> map_of p = map_of q))"
  using hashProperties_map_of hashProperties_same_layout by blast

theorem hashProperties_canonical_witness:
  "distinct (map fst [(''b'', PBool True), (''a'', PString ''xy'')]) \<and>
   distinct (map fst [(''a'', PString ''xy''), (''b'', PBool True)]) \<and>
   map_of [(''b'', PBool True), (''a'', PString ''xy'')] =
     map_of [(''a'', PString ''xy''), (''b'', PBool True)] \<and>
   same_layout [(''b'', PBool True), (''a'', PString ''xy'')]
     [(''a'', PString ''xy''), (''b'', PBool True)] \<and>
   hashProperties (Some [(''b'', PBool True), (''a'', PString ''xy'')]) =
     hashProperties (Some [(''a'', PString ''xy''), (''b'', PBool True)]) \<and>
   hashProperties (Some [(''b'', PBool True), (''a'', PString ''xy'')]) =
     Inr [CHR ''x'', CHR ''y'', byte_char 1]"
proof -
  let ?p = "[(''b'', PBool True), (''a'', PString ''xy'')]"
  let ?q = "[(''a'', PString ''xy''), (''b'', PBool True)]"
  have d: "distinct (map fst ?p)" "distinct (map fst ?q)"
    by simp_all
  have m: "map_of ?p = map_of ?q"
    by (auto simp: fun_eq_iff)
  have l: "same_layout ?p ?q"
    by (auto simp: same_layout_def)
  have v: "hashProperties (Some ?p) = Inr [CHR ''x'', CHR ''y'', byte_char 1]"
    by (simp add: hashProperties_def)
  from hashProperties_canonical [OF d] m l v show ?thesis
    by (simp only: d simp_thms)
qed

text \<open>
  C1 as stated fails: the maps \<open>{a: true}\<close> and \<open>{b: true}\<close> differ and hash to
  the same string.
\<close>

theorem hashProperties_not_injective:
  "hashProperties (Some [(''a'', PBool True)]) = hashProperties (Some [(''b'', PBool True)]) \<and>
   map_of [(''a'', PBool True)] ''a'' \<noteq> map_of [(''b'', PBool True)] ''a''"
  by (simp add: hashProperties_def)


section \<open>Properties of the registry lookup\<close>

lemma reg_invI:
  assumes "\<And>name. blockProperties reg name = map_option Properties (firstState name (blocks reg))"
    and "\<And>name. case firstState name (blocks reg) of
        None \<Rightarrow> (\<forall>h. stateRuntimeIDs reg (name, h) = None)
      | Some s0 \<Rightarrow> (\<exists>h. hashProperties (Properties s0) = Inr h \<and>
           stateRuntimeIDs reg (name, h) = Some (of_nat (firstIndex name (blocks reg))))"
  shows "reg_inv reg"
  unfolding reg_inv_def using assms by blast

lemma reg_inv_props:
  "reg_inv reg \<Longrightarrow> blockProperties reg name = map_option Properties (firstState name (blocks reg))"
  unfolding reg_inv_def by blast

lemma reg_inv_ids:
  "reg_inv reg \<Longrightarrow> case firstState name (blocks reg) of
        None \<Rightarrow> (\<forall>h. stateRuntimeIDs reg (name, h) = None)
      | Some s0 \<Rightarrow> (\<exists>h. hashProperties (Properties s0) = Inr h \<and>
           stateRuntimeIDs reg (name, h) = Some (of_nat (firstIndex name (blocks reg))))"
  unfolding reg_inv_def by blast

lemma reg_inv_ClearStates: "reg_inv ClearStates"
  by (simp add: reg_inv_def ClearStates_def firstState_def)

lemma firstState_snoc:
  "firstState name (ss @ [s]) =
     (case firstState name ss of Some s0 \<Rightarrow> Some s0
      | None \<Rightarrow> if Name s = name then Some s else None)"
  by (induction ss) (auto simp: firstState_def)

lemma firstIndex_snoc_Some:
  "firstState name ss = Some s0 \<Longrightarrow> firstIndex name (ss @ [s]) = firstIndex name ss"
  by (induction ss) (auto simp: firstState_def firstIndex_def split: if_splits)

lemma firstIndex_snoc_None:
  "firstState name ss = None \<Longrightarrow> firstIndex name (ss @ [s]) = (if Name s = name then length ss else Suc (length ss))"
  by (induction ss) (auto simp: firstState_def firstIndex_def split: if_splits)

lemma reg_inv_register:
  assumes "reg_inv reg" "registerBlockState s reg = Inr reg'"
  shows "reg_inv reg' \<and> blocks reg' = blocks reg @ [s]"
proof -
  obtain hp where hp: "hashProperties (Properties s) = Inr hp"
    and fresh: "stateRuntimeIDs reg (Name s, hp) = None"
    and reg': "reg' = reg\<lparr>
             blockProperties :=
               (if blockProperties reg (Name s) = None
                then (blockProperties reg)(Name s \<mapsto> Properties s)
                else blockProperties reg),
             blocks := blocks reg @ [s],
             stateRuntimeIDs := (stateRuntimeIDs reg)((Name s, hp) \<mapsto> of_nat (length (blocks reg)))\<rparr>"
    using assms(2) by (auto simp: registerBlockState_def Let_def split: sum.splits if_splits)
  have bl: "blocks reg' = blocks reg @ [s]"
    by (simp add: reg')
  have bp: "blockProperties reg name = map_option Properties (firstState name (blocks reg))" for name
    using assms(1) by (rule reg_inv_props)
  have ids: "case firstState name (blocks reg) of
        None \<Rightarrow> (\<forall>h. stateRuntimeIDs reg (name, h) = None)
      | Some s0 \<Rightarrow> (\<exists>h. hashProperties (Properties s0) = Inr h \<and>
           stateRuntimeIDs reg (name, h) = Some (of_nat (firstIndex name (blocks reg))))" for name
    using assms(1) by (rule reg_inv_ids)
  have 1: "blockProperties reg' name = map_option Properties (firstState name (blocks reg'))" for name
    using bp [of name] bp [of "Name s"]
    by (auto simp: reg' firstState_snoc split: option.splits)
  have 2: "case firstState name (blocks reg') of
        None \<Rightarrow> (\<forall>h. stateRuntimeIDs reg' (name, h) = None)
      | Some s0 \<Rightarrow> (\<exists>h. hashProperties (Properties s0) = Inr h \<and>
           stateRuntimeIDs reg' (name, h) = Some (of_nat (firstIndex name (blocks reg'))))" for name
  proof (cases "firstState name (blocks reg)")
    case None
    with ids [of name] have none: "\<And>h. stateRuntimeIDs reg (name, h) = None" by simp
    show ?thesis
      using None none hp
      by (auto simp: reg' firstState_snoc firstIndex_snoc_None)
  next
    case (Some s0)
    with ids [of name] obtain h where h: "hashProperties (Properties s0) = Inr h"
      "stateRuntimeIDs reg (name, h) = Some (of_nat (firstIndex name (blocks reg)))"
      by auto
    with fresh have "(name, h) \<noteq> (Name s, hp)" by auto
    with Some h show ?thesis
      by (auto simp: reg' firstState_snoc firstIndex_snoc_Some)
  qed
  from 1 2 have "reg_inv reg'"
    by (rule reg_invI)
  with bl show ?thesis by simp
qed

lemma reg_inv_registerBlockStates:
  "reg_inv reg \<Longrightarrow> registerBlockStates ss reg = Inr reg' \<Longrightarrow>
     reg_inv reg' \<and> blocks reg' = blocks reg @ ss"
proof (induction ss arbitrary: reg)
  case Nil
  then show ?case by simp
next
  case (Cons s ss)
  then obtain reg1 where r1: "registerBlockState s reg = Inr reg1"
    and rs: "registerBlockStates ss reg1 = Inr reg'"
    by (auto split: sum.splits)
  from reg_inv_register [OF Cons.prems(1) r1] Cons.IH [OF _ rs] show ?case
    by simp
qed

lemma StateToRuntimeID_inv:
  assumes "reg_inv reg" "hashProperties props = Inr hp"
  shows "StateToRuntimeID reg name props =
     Inr (case stateRuntimeIDs reg (name, hp) of
            Some rid \<Rightarrow> (rid, True)
          | None \<Rightarrow>
              (case firstState name (blocks reg) of
                 Some s0 \<Rightarrow> (of_nat (firstIndex name (blocks reg)), True)
               | None \<Rightarrow> (0, False)))"
proof (cases "firstState name (blocks reg)")
  case None
  with reg_inv_props [OF assms(1), of name] reg_inv_ids [OF assms(1), of name]
  have "blockProperties reg name = None" "\<And>h. stateRuntimeIDs reg (name, h) = None"
    by simp_all
  with None assms(2) show ?thesis
    by (simp add: StateToRuntimeID_def hashProperties_def)
next
  case (Some s0)
  with reg_inv_props [OF assms(1), of name] reg_inv_ids [OF assms(1), of name]
  obtain h where "blockProperties reg name = Some (Properties s0)"
    "hashProperties (Properties s0) = Inr h"
    "stateRuntimeIDs reg (name, h) = Some (of_nat (firstIndex name (blocks reg)))"
    by auto
  with Some assms(2) show ?thesis
    by (simp add: StateToRuntimeID_def split: option.splits)
qed

lemma firstIndex_nth:
  "firstState name states = Some s0 \<Longrightarrow>
     firstIndex name states < length states \<and> states ! firstIndex name states = s0"
  by (induction states) (auto simp: firstState_def firstIndex_def split: if_splits)

lemma firstState_Name: "firstState name states = Some s0 \<Longrightarrow> Name s0 = name"
  by (auto simp: firstState_def find_Some_iff)

lemma RuntimeIDToState_first:
  assumes "firstState name (blocks reg) = Some s0" "length (blocks reg) < 2 ^ 32"
  shows "RuntimeIDToState reg (of_nat (firstIndex name (blocks reg))) = Some (name, Properties s0)"
proof -
  from firstIndex_nth [OF assms(1)]
  have lt: "firstIndex name (blocks reg) < length (blocks reg)"
    and nth: "blocks reg ! firstIndex name (blocks reg) = s0"
    by simp_all
  have "unat (of_nat (length (blocks reg)) :: u32) = length (blocks reg)"
    using assms(2) by (simp add: unat_of_nat)
  moreover have "unat (of_nat (firstIndex name (blocks reg)) :: u32) = firstIndex name (blocks reg)"
    using assms(2) lt by (simp add: unat_of_nat)
  ultimately show ?thesis
    using lt nth firstState_Name [OF assms(1)] by (simp add: RuntimeIDToState_def)
qed

text \<open>
  C6. In a registry filled by registering a list of states (fewer than \<open>2^32\<close>), the lookup
  of \<open>(name, props)\<close> first tries the pair of the name and the hash of \<open>props\<close>. On a miss it
  retries with the properties recorded for the name, which are those of the first state
  registered under it, and then returns \<open>found = true\<close> with the runtime ID of that first
  state: its position in the order of registration, which \<open>RuntimeIDToState\<close> maps back to
  that state. It returns \<open>found = false\<close> (and ID 0) only when both lookups miss, which is
  when no state of that name was registered.
\<close>

theorem StateToRuntimeID_default:
  "registerBlockStates states ClearStates = Inr reg \<Longrightarrow> hashProperties props = Inr hp \<Longrightarrow>
   length states < 2 ^ 32 \<Longrightarrow>
     StateToRuntimeID reg name props =
       Inr (case stateRuntimeIDs reg (name, hp) of
              Some rid \<Rightarrow> (rid, True)
            | None \<Rightarrow>
                (case firstState name states of
                   Some s0 \<Rightarrow> (of_nat (firstIndex name states), True)
                 | None \<Rightarrow> (0, False))) \<and>
     blockProperties reg name = map_option Properties (firstState name states) \<and>
     (case firstState name states of
        Some s0 \<Rightarrow>
          RuntimeIDToState reg (of_nat (firstIndex name states)) = Some (name, Properties s0)
      | None \<Rightarrow> \<forall>h. stateRuntimeIDs reg (name, h) = None)"
proof -
  assume r: "registerBlockStates states ClearStates = Inr reg" and h: "hashProperties props = Inr hp"
    and len: "length states < 2 ^ 32"
  from reg_inv_registerBlockStates [OF reg_inv_ClearStates r]
  have inv: "reg_inv reg" and bl: "blocks reg = states"
    by (simp_all add: ClearStates_def)
  have 1: "StateToRuntimeID reg name props =
       Inr (case stateRuntimeIDs reg (name, hp) of
              Some rid \<Rightarrow> (rid, True)
            | None \<Rightarrow>
                (case firstState name states of
                   Some s0 \<Rightarrow> (of_nat (firstIndex name states), True)
                 | None \<Rightarrow> (0, False)))"
    using StateToRuntimeID_inv [OF inv h, of name] by (simp only: bl)
  have 2: "blockProperties reg name = map_option Properties (firstState name states)"
    using reg_inv_props [OF inv, of name] by (simp only: bl)
  have 3: "case firstState name states of
        Some s0 \<Rightarrow>
          RuntimeIDToState reg (of_nat (firstIndex name states)) = Some (name, Properties s0)
      | None \<Rightarrow> \<forall>h. stateRuntimeIDs reg (name, h) = None"
  proof (cases "firstState name states")
    case None
    with reg_inv_ids [OF inv, of name] show ?thesis
      by (simp add: bl)
  next
    case (Some s0)
    with RuntimeIDToState_first [of name reg s0] len show ?thesis
      by (simp add: bl)
  qed
  from 1 2 3 show ?thesis by blast
qed

lemma example_registry_built:
  "registerBlockStates [air_state, stone, stone_b] ClearStates = Inr example_registry"
  by (simp add: registerBlockState_def ClearStates_def air_state_def stone_def stone_b_def
        hashProperties_def example_registry_def)

theorem StateToRuntimeID_default_witness:
  "registerBlockStates [air_state, stone, stone_b] ClearStates = Inr example_registry \<and>
   hashProperties (Some [(''type'', PString ''c'')]) = Inr ''c'' \<and>
   length [air_state, stone, stone_b] < 2 ^ 32 \<and>
   stateRuntimeIDs example_registry (''stone'', ''c'') = None \<and>
   StateToRuntimeID example_registry ''stone'' (Some [(''type'', PString ''c'')]) = Inr (1, True) \<and>
   blockProperties example_registry ''stone'' = Some (Some [(''type'', PString ''a'')]) \<and>
   RuntimeIDToState example_registry 1 = Some (''stone'', Some [(''type'', PString ''a'')])"
proof -
  have h: "hashProperties (Some [(''type'', PString ''c'')]) = Inr ''c''"
    by (simp add: hashProperties_def)
  have l: "length [air_state, stone, stone_b] < 2 ^ 32"
    by simp
  have m: "stateRuntimeIDs example_registry (''stone'', ''c'') = None"
    by (simp add: example_registry_def)
  have f: "firstState ''stone'' [air_state, stone, stone_b] = Some stone"
    "firstIndex ''stone'' [air_state, stone, stone_b] = 1"
    by (simp_all add: firstState_def firstIndex_def air_state_def stone_def)
  from StateToRuntimeID_default [OF example_registry_built h l, of "''stone''"] h m f
    example_registry_built
  show ?thesis by (simp add: stone_def)
qed

section \<open>Properties of the chunk codec\<close>

lemma decodePalettedStorage_marker:
  "drop_bit 1 h = 0x7f \<Longrightarrow> decodePalettedStorage cd (h # rest) e pe = (Inr None, rest)"
  by (simp add: decodePalettedStorage_def Let_def)

lemma decodePalettedStorage_None:
  "decodePalettedStorage cd buf e pe = (Inr None, buf') \<Longrightarrow>
     \<exists>h. buf = h # buf' \<and> drop_bit 1 h = 0x7f"
  by (auto simp: decodePalettedStorage_def Let_def split: list.splits if_splits prod.splits sum.splits)

lemma resolve_length [simp]: "length (resolve l rs) = length rs"
  by (induction l rs rule: resolve.induct) simp_all

lemma decodeBiomeStorages_resolve:
  assumes "decodeStorages cd e BiomePaletteEncoding (n - k) buf = Inr (rs, buf')"
    and "k \<le> n" and "n \<le> length (chunk_biomes c)"
    and "k = 0 \<Longrightarrow> rs \<noteq> [] \<Longrightarrow> hd rs \<noteq> None"
  shows "decodeBiomeStorages cd e [k..<n] l buf c =
     Inr (c\<lparr>chunk_biomes := take k (chunk_biomes c) @ resolve l rs @ drop n (chunk_biomes c)\<rparr>, buf')"
  using assms
proof (induction "n - k" arbitrary: k buf rs l c)
  case 0
  then show ?case by simp
next
  case (Suc m)
  then have kn: "k < n" and nk: "n - k = Suc m" and m: "m = n - Suc k"
    by simp_all
  from Suc.prems(1) obtain r buf1 rs1 where
    r: "decodePalettedStorage cd buf e BiomePaletteEncoding = (Inr r, buf1)"
    and rest: "decodeStorages cd e BiomePaletteEncoding (n - Suc k) buf1 = Inr (rs1, buf')"
    and rs: "rs = r # rs1"
    by (auto simp: nk m split: prod.splits sum.splits)
  have first: "\<not> (k = 0 \<and> r = None)"
    using Suc.prems(4) rs by auto
  have len: "\<not> length (chunk_biomes c) \<le> k"
    using kn Suc.prems(3) by simp
  have upt: "[k..<n] = k # [Suc k..<n]"
    using kn by (simp add: upt_conv_Cons)
  let ?c1 = "c\<lparr>chunk_biomes := (chunk_biomes c)[k := (case r of None \<Rightarrow> l | Some s \<Rightarrow> Some s)]\<rparr>"
  let ?l1 = "case r of None \<Rightarrow> l | Some s \<Rightarrow> Some s"
  have step: "decodeBiomeStorages cd e [k..<n] l buf c = decodeBiomeStorages cd e [Suc k..<n] ?l1 buf1 ?c1"
    using r first len by (cases r) (simp_all add: upt)
  have IH: "decodeBiomeStorages cd e [Suc k..<n] ?l1 buf1 ?c1 =
     Inr (?c1\<lparr>chunk_biomes := take (Suc k) (chunk_biomes ?c1) @ resolve ?l1 rs1 @ drop n (chunk_biomes ?c1)\<rparr>, buf')"
    using Suc.hyps(1) [of "Suc k" buf1 rs1 ?c1 ?l1] m rest kn Suc.prems(3) by simp
  have "take (Suc k) (chunk_biomes ?c1) @ resolve ?l1 rs1 @ drop n (chunk_biomes ?c1) =
        take k (chunk_biomes c) @ resolve l rs @ drop n (chunk_biomes c)"
    using kn Suc.prems(3) by (cases r) (simp_all add: rs take_Suc_conv_app_nth)
  with step IH show ?case by simp
qed

lemma resolve_mostRecent:
  "i < length rs \<Longrightarrow> resolve l rs ! i = (case mostRecent rs i of None \<Rightarrow> l | Some s \<Rightarrow> Some s)"
proof (induction l rs arbitrary: i rule: resolve.induct)
  case (1 l)
  then show ?case by simp
next
  case (2 l rs)
  show ?case
  proof (cases i)
    case 0
    then show ?thesis by simp
  next
    case (Suc j)
    have "mostRecent (None # rs) (Suc j) = mostRecent rs j" 
      by (induction j) (simp_all split: option.splits) 
    with 2 Suc show ?thesis by simp
  qed
next
  case (3 l s rs)
  show ?case
  proof (cases i)
    case 0
    then show ?thesis by simp
  next
    case (Suc j)
    have "mostRecent (Some s # rs) (Suc j) = (case mostRecent rs j of None \<Rightarrow> Some s | Some t \<Rightarrow> Some t)" 
      by (induction j) (simp_all split: option.splits) 
    with 3 Suc show ?thesis by (simp split: option.splits)
  qed
qed

lemma resolve_map_mostRecent:
  "resolve None rs = map (mostRecent rs) [0..<length rs]"
  by (rule nth_equalityI) (auto simp: resolve_mostRecent split: option.splits)

lemma decodeBiomes_first_marker:
  assumes "chunk_sub c \<noteq> []" "drop_bit 1 h = 0x7f"
  shows "decodeBiomes cd (h # rest) c e = Inl (Errorf ''first biome storage pointed to previous one'')"
proof -
  from assms(1) have "[0..<length (chunk_sub c)] = 0 # [1..<length (chunk_sub c)]"
    by (simp add: upt_conv_Cons)
  with decodePalettedStorage_marker [OF assms(2)] show ?thesis
    by (simp add: decodeBiomes_def)
qed

lemma decodeBiomes_resolved:
  assumes "buf \<noteq> []" "length (chunk_biomes c) = length (chunk_sub c)"
    and "decodeStorages cd e BiomePaletteEncoding (length (chunk_sub c)) buf = Inr (rs, buf')"
    and "rs \<noteq> [] \<Longrightarrow> hd rs \<noteq> None"
  shows "decodeBiomes cd buf c e = Inr (c\<lparr>chunk_biomes := map (mostRecent rs) [0..<length rs]\<rparr>)"
proof -
  have len: "length rs = length (chunk_sub c)"
    using assms(3)
  proof (induction "length (chunk_sub c)" arbitrary: buf rs c)
    case 0
    then show ?case by simp
  next
    case (Suc n)
    from Suc(2) [symmetric] Suc(3) obtain r buf1 rs1 where
      "decodeStorages cd e BiomePaletteEncoding n buf1 = Inr (rs1, buf')" "rs = r # rs1"
      by (auto split: prod.splits sum.splits)
    with Suc(1) [of "c\<lparr>chunk_sub := replicate n undefined\<rparr>" buf1 rs1] Suc(2) show ?case
      by simp
  qed
  from decodeBiomeStorages_resolve [of cd e "length (chunk_sub c)" 0 buf rs buf' c None] assms
  have "decodeBiomeStorages cd e [0..<length (chunk_sub c)] None buf c =
     Inr (c\<lparr>chunk_biomes := resolve None rs\<rparr>, buf')"
    by (simp add: len [symmetric])
  with assms(1) show ?thesis
    by (simp add: decodeBiomes_def resolve_map_mostRecent)
qed

text \<open>
  C5. A storage whose leading byte, shifted right by one, is \<open>0x7f\<close> is the inherit marker
  (the decoder returns the nil storage for it and for nothing else). When the biome
  storages of a chunk are decoded and the first one is the marker, decoding fails with an
  error. Otherwise, when the storages read one after the other are \<open>rs\<close>, every position
  of the chunk holds the most recently decoded storage that is not a marker, at or before
  that position: a marker at a later position stands for the storage decoded last.
\<close>

theorem decodeBiomes_inherit:
  "(decodePalettedStorage cd (h # rest) e pe = (Inr None, rest) \<longleftrightarrow> drop_bit 1 h = 0x7f) \<and>
   (chunk_sub c \<noteq> [] \<and> drop_bit 1 h = 0x7f \<longrightarrow>
      decodeBiomes cd (h # rest) c e = Inl (Errorf ''first biome storage pointed to previous one'')) \<and>
   (buf \<noteq> [] \<and> length (chunk_biomes c) = length (chunk_sub c) \<and>
    decodeStorages cd e BiomePaletteEncoding (length (chunk_sub c)) buf = Inr (rs, buf') \<and>
    (rs \<noteq> [] \<longrightarrow> hd rs \<noteq> None) \<longrightarrow>
      decodeBiomes cd buf c e = Inr (c\<lparr>chunk_biomes := map (mostRecent rs) [0..<length rs]\<rparr>))"
proof (intro conjI impI)
  show "decodePalettedStorage cd (h # rest) e pe = (Inr None, rest) \<longleftrightarrow> drop_bit 1 h = 0x7f"
    using decodePalettedStorage_marker [of h cd rest e pe]
      decodePalettedStorage_None [of cd "h # rest" e pe rest]
    by auto
next
  assume "chunk_sub c \<noteq> [] \<and> drop_bit 1 h = 0x7f"
  then show "decodeBiomes cd (h # rest) c e = Inl (Errorf ''first biome storage pointed to previous one'')"
    using decodeBiomes_first_marker by blast
next
  assume "buf \<noteq> [] \<and> length (chunk_biomes c) = length (chunk_sub c) \<and>
    decodeStorages cd e BiomePaletteEncoding (length (chunk_sub c)) buf = Inr (rs, buf') \<and>
    (rs \<noteq> [] \<longrightarrow> hd rs \<noteq> None)"
  then show "decodeBiomes cd buf c e = Inr (c\<lparr>chunk_biomes := map (mostRecent rs) [0..<length rs]\<rparr>)"
    using decodeBiomes_resolved [of buf c cd e rs buf'] by blast
qed


lemma example_raw:
  "decodeStorages example_codec DiskEncoding BiomePaletteEncoding 3 [0, 5, 0xFF, 0, 7] =
     Inr ([Some (example_storage 5), None, Some (example_storage 7)], [])"
  by (simp add: numeral_3_eq_3 decodePalettedStorage_def example_codec_def example_storage_def
        newPalettedStorage_def Let_def)

theorem decodeBiomes_inherit_witness:
  "drop_bit 1 (0xFF :: byte) = 0x7f \<and>
   decodePalettedStorage example_codec [0xFF, 0, 7] DiskEncoding BiomePaletteEncoding = (Inr None, [0, 7]) \<and>
   chunk_sub example_chunk \<noteq> [] \<and>
   decodeBiomes example_codec [0xFF, 0, 7] example_chunk DiskEncoding =
     Inl (Errorf ''first biome storage pointed to previous one'') \<and>
   length (chunk_biomes example_chunk) = length (chunk_sub example_chunk) \<and>
   decodeStorages example_codec DiskEncoding BiomePaletteEncoding (length (chunk_sub example_chunk))
     [0, 5, 0xFF, 0, 7] = Inr ([Some (example_storage 5), None, Some (example_storage 7)], []) \<and>
   decodeBiomes example_codec [0, 5, 0xFF, 0, 7] example_chunk DiskEncoding =
     Inr (example_chunk\<lparr>chunk_biomes :=
       [Some (example_storage 5), Some (example_storage 5), Some (example_storage 7)]\<rparr>)"
proof -
  have m: "drop_bit 1 (0xFF :: byte) = 0x7f"
    by simp
  have s: "chunk_sub example_chunk \<noteq> []" "length (chunk_sub example_chunk) = 3"
    "length (chunk_biomes example_chunk) = length (chunk_sub example_chunk)"
    by (simp_all add: example_chunk_def example_codec_def)
  have r: "map (mostRecent [Some (example_storage 5), None, Some (example_storage 7)])
        [0..<length [Some (example_storage 5), None, Some (example_storage 7)]] =
      [Some (example_storage 5), Some (example_storage 5), Some (example_storage 7)]"
    by (simp add: upt_conv_Cons numeral_2_eq_2)
  from decodeBiomes_inherit [of example_codec "0xFF" "[0, 7]" DiskEncoding BiomePaletteEncoding
      example_chunk "[0, 5, 0xFF, 0, 7]" "[Some (example_storage 5), None, Some (example_storage 7)]" "[]"]
    m s example_raw
  show ?thesis
    by (simp only: r) simp
qed


lemma lookupValues_map_aux:
  "k \<le> length vs \<Longrightarrow>
     lookupValues tab [k..<length vs] vs = take k vs @ map (ridHashLookup_at tab) (drop k vs)"
proof (induction "length vs - k" arbitrary: k vs)
  case 0
  then show ?case by simp
next
  case (Suc m)
  then have k: "k < length vs" by simp
  then have upt: "[k..<length vs] = k # [Suc k..<length vs]"
    by (simp add: upt_conv_Cons)
  let ?vs = "vs[k := ridHashLookup_at tab (vs ! k)]"
  have "lookupValues tab [Suc k..<length ?vs] ?vs =
        take (Suc k) ?vs @ map (ridHashLookup_at tab) (drop (Suc k) ?vs)"
    using Suc.hyps(2) k by (intro Suc.hyps(1)) simp_all
  moreover have "take (Suc k) ?vs = take k vs @ [ridHashLookup_at tab (vs ! k)]"
    using k by (simp add: take_Suc_conv_app_nth)
  moreover have "drop k vs = vs ! k # drop (Suc k) vs"
    using k by (simp add: Cons_nth_drop_Suc)
  ultimately show ?case
    using k by (simp add: upt)
qed

lemma lookupValues_map:
  "lookupValues tab [0..<length vs] vs = map (\<lambda>v. case tab v of Some rid \<Rightarrow> rid | None \<Rightarrow> 0) vs"
  using lookupValues_map_aux [of 0 vs tab]
  by (simp add: ridHashLookup_at_def [abs_def])

lemma lookupStorages_hashed:
  "None \<notin> set ss \<Longrightarrow> lookupStorages tab ss = Inr (map (map_option (hashedStorage tab)) ss)"
  by (induction tab ss rule: lookupStorages.induct)
     (simp_all add: lookupValues_map hashedStorage_def)

lemma decodeSubChunk_reads:
  assumes "chunk_r c' = chunk_r c" "chunk_air c' = chunk_air c"
  shows "decodeSubChunk cd buf c' idx e = decodeSubChunk cd buf c idx e"
  unfolding decodeSubChunk_def assms by (rule refl)

lemma decodeBiomeStorages_sub:
  "decodeBiomeStorages cd e is l buf (c\<lparr>chunk_sub := x\<rparr>) =
     (case decodeBiomeStorages cd e is l buf c of
        Inl err \<Rightarrow> Inl err
      | Inr (c1, b) \<Rightarrow> Inr (c1\<lparr>chunk_sub := x\<rparr>, b))"
proof (induction "is" arbitrary: l buf c)
  case Nil
  then show ?case by simp
next
  case (Cons i rest)
  have comm: "c\<lparr>chunk_sub := x, chunk_biomes := bs\<rparr> = c\<lparr>chunk_biomes := bs, chunk_sub := x\<rparr>" for bs
    by (cases c) simp
  show ?case
  proof (cases "decodePalettedStorage cd buf e BiomePaletteEncoding")
    case (Pair res buf1)
    show ?thesis
    proof (cases res)
      case (Inl err)
      with Pair show ?thesis by simp
    next
      case (Inr b)
      show ?thesis
      proof (cases b)
        case None
        with Pair Inr Cons.IH [of l buf1 "c\<lparr>chunk_biomes := (chunk_biomes c)[i := l]\<rparr>"]
        show ?thesis by (simp add: comm)
      next
        case (Some st)
        with Pair Inr Cons.IH [of "Some st" buf1 "c\<lparr>chunk_biomes := (chunk_biomes c)[i := Some st]\<rparr>"]
        show ?thesis by (simp add: comm)
      qed
    qed
  qed
qed

lemma decodeBiomeStorages_keeps:
  "decodeBiomeStorages cd e is l buf c = Inr (c1, b) \<Longrightarrow>
     chunk_sub c1 = chunk_sub c \<and> chunk_r c1 = chunk_r c \<and> chunk_air c1 = chunk_air c"
proof (induction "is" arbitrary: l buf c)
  case Nil
  then show ?case by simp
next
  case (Cons i rest)
  from Cons.prems obtain l1 buf1 bs where
    "decodeBiomeStorages cd e rest l1 buf1 (c\<lparr>chunk_biomes := bs\<rparr>) = Inr (c1, b)"
    by (auto split: prod.splits sum.splits if_splits option.splits)
  from Cons.IH [OF this] show ?case by simp
qed

lemma lookupStorages_nil:
  "None \<in> set ss \<Longrightarrow> lookupStorages tab ss = Inl (Panic ''nil pointer dereference'')"
  by (induction tab ss rule: lookupStorages.induct) auto

lemma storeSubChunks_length [simp]: "length (storeSubChunks rounds subs) = length subs"
  by (induction rounds subs rule: storeSubChunks.induct) simp_all

lemma decodeSubChunks_False_rounds:
  "decodeSubChunks cd tab False is buf c = Inr (c1, buf1) \<Longrightarrow>
     c1 = c\<lparr>chunk_sub := storeSubChunks (subChunkRounds cd is buf c) (chunk_sub c)\<rparr>"
proof (induction "is" arbitrary: buf c)
  case Nil
  then show ?case by simp
next
  case (Cons i rest)
  obtain res idx where d: "decodeSubChunk cd buf c (of_nat i) NetworkEncoding = (res, idx)"
    by (cases "decodeSubChunk cd buf c (of_nat i) NetworkEncoding")
  from Cons.prems d have idx: "unat idx < length (chunk_sub c)"
    by (cases "length (chunk_sub c) \<le> unat idx") simp_all
  from Cons.prems d idx obtain s buf2 where res: "res = Inr (s, buf2)"
    by (cases res) auto
  let ?c2 = "c\<lparr>chunk_sub := (chunk_sub c)[unat idx := s]\<rparr>"
  from Cons.prems d idx res
  have "decodeSubChunks cd tab False rest buf2 ?c2 = Inr (c1, buf1)"
    by simp
  from Cons.IH [OF this] d idx res show ?case
    by simp
qed

lemma decodeSubChunks_True_rounds:
  assumes "chunk_r c' = chunk_r c" "chunk_air c' = chunk_air c"
    "length (chunk_sub c') = length (chunk_sub c)"
    and "\<forall>(k, s) \<in> set (subChunkRounds cd is buf c). None \<notin> set (storages s)"
  shows "decodeSubChunks cd tab True is buf c' =
      (case decodeSubChunks cd tab False is buf c of
         Inl err \<Rightarrow> Inl err
       | Inr (c1, buf1) \<Rightarrow>
           Inr (c'\<lparr>chunk_sub := storeSubChunks
                   (map (\<lambda>(k, s). (k, hashedSubChunk tab s)) (subChunkRounds cd is buf c))
                   (chunk_sub c')\<rparr>, buf1))"
  using assms
proof (induction "is" arbitrary: buf c c')
  case Nil
  then show ?case by simp
next
  case (Cons i rest)
  obtain res idx where d: "decodeSubChunk cd buf c (of_nat i) NetworkEncoding = (res, idx)"
    by (cases "decodeSubChunk cd buf c (of_nat i) NetworkEncoding")
  have d': "decodeSubChunk cd buf c' (of_nat i) NetworkEncoding = (res, idx)"
    using d decodeSubChunk_reads [OF Cons.prems(1,2)] by simp
  show ?case
  proof (cases "length (chunk_sub c) \<le> unat idx")
    case True
    with d d' Cons.prems(3) show ?thesis by simp
  next
    case False
    show ?thesis
    proof (cases res)
      case (Inl err)
      with d d' False Cons.prems(3) show ?thesis by simp
    next
      case (Inr p)
      obtain s buf2 where p: "p = (s, buf2)" by (cases p)
      let ?c2 = "c\<lparr>chunk_sub := (chunk_sub c)[unat idx := s]\<rparr>"
      let ?c2' = "c'\<lparr>chunk_sub := (chunk_sub c')[unat idx := hashedSubChunk tab s]\<rparr>"
      have rounds: "subChunkRounds cd (i # rest) buf c = (unat idx, s) # subChunkRounds cd rest buf2 ?c2"
        using d False Inr p by simp
      from Cons.prems(4) have nonil: "None \<notin> set (storages s)"
        and rest: "\<forall>(k, s) \<in> set (subChunkRounds cd rest buf2 ?c2). None \<notin> set (storages s)"
        unfolding rounds by simp_all
      have ih: "decodeSubChunks cd tab True rest buf2 ?c2' =
          (case decodeSubChunks cd tab False rest buf2 ?c2 of
             Inl err \<Rightarrow> Inl err
           | Inr (c1, buf1) \<Rightarrow>
               Inr (?c2'\<lparr>chunk_sub := storeSubChunks
                       (map (\<lambda>(k, s). (k, hashedSubChunk tab s)) (subChunkRounds cd rest buf2 ?c2))
                       (chunk_sub ?c2')\<rparr>, buf1))"
        using Cons.prems(1,2,3) rest by (intro Cons.IH) simp_all
      have t: "decodeSubChunks cd tab True (i # rest) buf c' =
          decodeSubChunks cd tab True rest buf2 ?c2'"
        using d' False Inr p Cons.prems(3) lookupStorages_hashed [OF nonil, of tab]
        by (simp add: hashedSubChunk_def)
      have f: "decodeSubChunks cd tab False (i # rest) buf c =
          decodeSubChunks cd tab False rest buf2 ?c2"
        using d False Inr p by simp
      show ?thesis
        unfolding t f ih rounds
        by (cases "decodeSubChunks cd tab False rest buf2 ?c2") (auto)
    qed
  qed
qed

lemma decodeSubChunks_True_nil:
  assumes "chunk_r c' = chunk_r c" "chunk_air c' = chunk_air c"
    "length (chunk_sub c') = length (chunk_sub c)"
    and "\<exists>(k, s) \<in> set (subChunkRounds cd is buf c). None \<in> set (storages s)"
  shows "decodeSubChunks cd tab True is buf c' = Inl (Panic ''nil pointer dereference'')"
  using assms
proof (induction "is" arbitrary: buf c c')
  case Nil
  then show ?case by simp
next
  case (Cons i rest)
  obtain res idx where d: "decodeSubChunk cd buf c (of_nat i) NetworkEncoding = (res, idx)"
    by (cases "decodeSubChunk cd buf c (of_nat i) NetworkEncoding")
  have d': "decodeSubChunk cd buf c' (of_nat i) NetworkEncoding = (res, idx)"
    using d decodeSubChunk_reads [OF Cons.prems(1,2)] by simp
  from Cons.prems(4) d have idx: "\<not> length (chunk_sub c) \<le> unat idx"
    by (cases "length (chunk_sub c) \<le> unat idx") simp_all
  from Cons.prems(4) d idx obtain s buf2 where res: "res = Inr (s, buf2)"
    by (cases res) auto
  let ?c2 = "c\<lparr>chunk_sub := (chunk_sub c)[unat idx := s]\<rparr>"
  let ?c2' = "c'\<lparr>chunk_sub := (chunk_sub c')[unat idx := hashedSubChunk tab s]\<rparr>"
  have rounds: "subChunkRounds cd (i # rest) buf c = (unat idx, s) # subChunkRounds cd rest buf2 ?c2"
    using d idx res by simp
  show ?case
  proof (cases "None \<in> set (storages s)")
    case True
    with d' idx res Cons.prems(3) show ?thesis
      by (simp add: lookupStorages_nil)
  next
    case False
    with Cons.prems(4)
    have "\<exists>(k, s) \<in> set (subChunkRounds cd rest buf2 ?c2). None \<in> set (storages s)"
      unfolding rounds by simp
    then have "decodeSubChunks cd tab True rest buf2 ?c2' = Inl (Panic ''nil pointer dereference'')"
      using Cons.prems(1,2,3) by (intro Cons.IH) simp_all
    moreover have "decodeSubChunks cd tab True (i # rest) buf c' =
        decodeSubChunks cd tab True rest buf2 ?c2'"
      using d' idx res Cons.prems(3) lookupStorages_hashed [OF False, of tab]
      by (simp add: hashedSubChunk_def)
    ultimately show ?thesis by simp
  qed
qed

lemma setOldBiomes_sub:
  assumes "\<forall>c subs x y z v.
      SetBiome cd (c\<lparr>chunk_sub := subs\<rparr>) x y z v = (SetBiome cd c x y z v)\<lparr>chunk_sub := subs\<rparr>"
  shows "setOldBiomes cd bs r (c\<lparr>chunk_sub := subs\<rparr>) = (setOldBiomes cd bs r c)\<lparr>chunk_sub := subs\<rparr>"
proof -
  have y: "foldl (\<lambda>c y. SetBiome cd c x (word_of_int y) z v) (c\<lparr>chunk_sub := subs\<rparr>) ys =
      (foldl (\<lambda>c y. SetBiome cd c x (word_of_int y) z v) c ys)\<lparr>chunk_sub := subs\<rparr>" for x z v ys c
    by (induction ys arbitrary: c) (simp_all add: assms)
  have z: "foldl (\<lambda>c z. foldl (\<lambda>c y. SetBiome cd c (g x) (word_of_int y) (h z) (v x z)) c ys)
        (c\<lparr>chunk_sub := subs\<rparr>) zs =
      (foldl (\<lambda>c z. foldl (\<lambda>c y. SetBiome cd c (g x) (word_of_int y) (h z) (v x z)) c ys) c zs)
        \<lparr>chunk_sub := subs\<rparr>" for x g h v ys zs c
    by (induction zs arbitrary: c) (simp_all add: y)
  have x: "foldl (\<lambda>c x. foldl (\<lambda>c z.
          foldl (\<lambda>c y. SetBiome cd c (g x) (word_of_int y) (h z) (v x z)) c ys) c zs)
        (c\<lparr>chunk_sub := subs\<rparr>) xs =
      (foldl (\<lambda>c x. foldl (\<lambda>c z.
          foldl (\<lambda>c y. SetBiome cd c (g x) (word_of_int y) (h z) (v x z)) c ys) c zs) c xs)
        \<lparr>chunk_sub := subs\<rparr>" for g h v ys zs xs c
    by (induction xs arbitrary: c) (simp_all add: z)
  show ?thesis
    unfolding setOldBiomes_def by (rule x)
qed

lemma setOldBiomes_keeps_sub:
  assumes "\<forall>c subs x y z v.
      SetBiome cd (c\<lparr>chunk_sub := subs\<rparr>) x y z v = (SetBiome cd c x y z v)\<lparr>chunk_sub := subs\<rparr>"
  shows "chunk_sub (setOldBiomes cd bs r c) = chunk_sub c"
proof -
  have "setOldBiomes cd bs r (c\<lparr>chunk_sub := chunk_sub c\<rparr>) =
      (setOldBiomes cd bs r c)\<lparr>chunk_sub := chunk_sub c\<rparr>"
    by (rule setOldBiomes_sub [OF assms])
  then have "setOldBiomes cd bs r c = (setOldBiomes cd bs r c)\<lparr>chunk_sub := chunk_sub c\<rparr>"
    by simp
  then have "chunk_sub (setOldBiomes cd bs r c) =
      chunk_sub ((setOldBiomes cd bs r c)\<lparr>chunk_sub := chunk_sub c\<rparr>)"
    by simp
  then show ?thesis by simp
qed

lemma storeSubChunks_hashed:
  assumes "length subs' = length subs"
    and "\<forall>k < length subs. subs' ! k = hashedSubChunk tab (subs ! k) \<or>
           subs' ! k = base ! k \<and> subs ! k = base ! k"
  shows "\<forall>k < length subs.
      storeSubChunks (map (\<lambda>(k, s). (k, hashedSubChunk tab s)) rounds) subs' ! k =
        hashedSubChunk tab (storeSubChunks rounds subs ! k) \<or>
      storeSubChunks (map (\<lambda>(k, s). (k, hashedSubChunk tab s)) rounds) subs' ! k = base ! k \<and>
        storeSubChunks rounds subs ! k = base ! k"
  using assms
proof (induction rounds arbitrary: subs subs')
  case Nil
  then show ?case by simp
next
  case (Cons p rounds)
  obtain j s where p: "p = (j, s)" by (cases p)
  have "\<forall>k < length (subs[j := s]).
      (subs'[j := hashedSubChunk tab s]) ! k = hashedSubChunk tab (subs[j := s] ! k) \<or>
      (subs'[j := hashedSubChunk tab s]) ! k = base ! k \<and> subs[j := s] ! k = base ! k"
  proof (intro allI impI)
    fix k assume k: "k < length (subs[j := s])"
    show "(subs'[j := hashedSubChunk tab s]) ! k = hashedSubChunk tab (subs[j := s] ! k) \<or>
      (subs'[j := hashedSubChunk tab s]) ! k = base ! k \<and> subs[j := s] ! k = base ! k"
    proof (cases "k = j")
      case True
      with k Cons.prems(1) show ?thesis by simp
    next
      case False
      with k Cons.prems(2) show ?thesis by simp
    qed
  qed
  from Cons.IH [OF _ this] Cons.prems(1) show ?case
    by (simp add: p)
qed

lemma NetworkDecode_unfold:
  "decodeSubChunks cd tab h [0..<nat count] data (New cd a r) = Inr (c1, buf1) \<Longrightarrow>
   (if oldBiomes
    then (if buf1 = [] then Inl (Wrap ''error reading biomes'' EOF)
          else Inr (setOldBiomes cd (take 256 buf1 @ replicate (256 - length buf1) 0) r c1,
                    drop 256 buf1))
    else decodeBiomeStorages cd NetworkEncoding [0..<length (chunk_sub c1)] None buf1 c1) = B \<Longrightarrow>
   NetworkDecode cd tab a data count oldBiomes h r =
     (case B of
        Inl err \<Rightarrow> Some (Inl err)
      | Inr (c2, buf2) \<Rightarrow>
          (case decodeBlockNBTs cd buf2 [] of
             None \<Rightarrow> None
           | Some (Inl err) \<Rightarrow> Some (Inl err)
           | Some (Inr blockNBTs) \<Rightarrow> Some (Inr (c2, blockNBTs))))"
  by (simp add: NetworkDecode_def)

lemma NetworkDecode_True_rounds:
  assumes frame: "oldBiomes \<longrightarrow> (\<forall>c subs x y z v.
      SetBiome cd (c\<lparr>chunk_sub := subs\<rparr>) x y z v = (SetBiome cd c x y z v)\<lparr>chunk_sub := subs\<rparr>)"
    and nonil: "\<forall>(k, s) \<in> set (subChunkRounds cd [0..<nat count] data (New cd a r)).
      None \<notin> set (storages s)"
  shows "NetworkDecode cd tab a data count oldBiomes True r =
      map_option (map_sum id (\<lambda>(c, nbts).
          (c\<lparr>chunk_sub := storeSubChunks
                (map (\<lambda>(k, s). (k, hashedSubChunk tab s))
                   (subChunkRounds cd [0..<nat count] data (New cd a r)))
                (chunk_sub (New cd a r))\<rparr>, nbts)))
        (NetworkDecode cd tab a data count oldBiomes False r)"
proof -
  let ?c0 = "New cd a r"
  let ?rounds = "subChunkRounds cd [0..<nat count] data ?c0"
  let ?S' = "storeSubChunks (map (\<lambda>(k, s). (k, hashedSubChunk tab s)) ?rounds) (chunk_sub ?c0)"
  have T: "decodeSubChunks cd tab True [0..<nat count] data ?c0 =
      (case decodeSubChunks cd tab False [0..<nat count] data ?c0 of
         Inl err \<Rightarrow> Inl err
       | Inr (c1, buf1) \<Rightarrow> Inr (?c0\<lparr>chunk_sub := ?S'\<rparr>, buf1))"
    by (rule decodeSubChunks_True_rounds [OF refl refl refl nonil])
  show ?thesis
  proof (cases "decodeSubChunks cd tab False [0..<nat count] data ?c0")
    case (Inl err)
    with T show ?thesis
      by (simp add: NetworkDecode_def)
  next
    case (Inr p)
    obtain c1 buf1 where p: "p = (c1, buf1)" by (cases p)
    from Inr p have F: "decodeSubChunks cd tab False [0..<nat count] data ?c0 = Inr (c1, buf1)"
      by simp
    from decodeSubChunks_False_rounds [OF F]
    have c1: "c1 = ?c0\<lparr>chunk_sub := storeSubChunks ?rounds (chunk_sub ?c0)\<rparr>" .
    have c1': "?c0\<lparr>chunk_sub := ?S'\<rparr> = c1\<lparr>chunk_sub := ?S'\<rparr>"
      by (subst c1) simp
    have len: "length (chunk_sub (c1\<lparr>chunk_sub := ?S'\<rparr>)) = length (chunk_sub c1)"
      by (subst (2) c1) simp
    from T F c1' have T': "decodeSubChunks cd tab True [0..<nat count] data ?c0 =
        Inr (c1\<lparr>chunk_sub := ?S'\<rparr>, buf1)"
      by simp
    define B where "B = (if oldBiomes
      then (if buf1 = [] then Inl (Wrap ''error reading biomes'' EOF)
            else Inr (setOldBiomes cd (take 256 buf1 @ replicate (256 - length buf1) 0) r c1,
                      drop 256 buf1))
      else decodeBiomeStorages cd NetworkEncoding [0..<length (chunk_sub c1)] None buf1 c1)"
    have B': "(if oldBiomes
      then (if buf1 = [] then Inl (Wrap ''error reading biomes'' EOF)
            else Inr (setOldBiomes cd (take 256 buf1 @ replicate (256 - length buf1) 0) r
                        (c1\<lparr>chunk_sub := ?S'\<rparr>), drop 256 buf1))
      else decodeBiomeStorages cd NetworkEncoding [0..<length (chunk_sub (c1\<lparr>chunk_sub := ?S'\<rparr>))]
             None buf1 (c1\<lparr>chunk_sub := ?S'\<rparr>)) =
      (case B of Inl err \<Rightarrow> Inl err | Inr (c2, buf2) \<Rightarrow> Inr (c2\<lparr>chunk_sub := ?S'\<rparr>, buf2))"
    proof (cases oldBiomes)
      case True
      with frame have fr: "\<forall>c subs x y z v.
          SetBiome cd (c\<lparr>chunk_sub := subs\<rparr>) x y z v = (SetBiome cd c x y z v)\<lparr>chunk_sub := subs\<rparr>"
        by simp
      from True show ?thesis
        by (simp add: B_def setOldBiomes_sub [OF fr])
    next
      case False
      then show ?thesis
        unfolding len by (simp add: B_def decodeBiomeStorages_sub)
    qed
    note t = NetworkDecode_unfold [OF T' B']
    note f = NetworkDecode_unfold [OF F B_def [symmetric]]
    show ?thesis
    proof (cases B)
      case (Inl err)
      then show ?thesis by (simp add: t f)
    next
      case (Inr q)
      obtain c2 buf2 where q: "q = (c2, buf2)" by (cases q)
      show ?thesis
      proof (cases "decodeBlockNBTs cd buf2 []")
        case None
        with Inr q show ?thesis by (simp add: t f)
      next
        case (Some res)
        with Inr q show ?thesis by (cases res) (simp_all add: t f)
      qed
    qed
  qed
qed

lemma NetworkDecode_True_nil:
  assumes "\<exists>(k, s) \<in> set (subChunkRounds cd [0..<nat count] data (New cd a r)).
      None \<in> set (storages s)"
  shows "NetworkDecode cd tab a data count oldBiomes True r =
      Some (Inl (Panic ''nil pointer dereference''))"
  using decodeSubChunks_True_nil [OF refl refl refl assms, of tab]
  by (simp add: NetworkDecode_def)

lemma NetworkDecode_False_sub:
  assumes frame: "oldBiomes \<longrightarrow> (\<forall>c subs x y z v.
      SetBiome cd (c\<lparr>chunk_sub := subs\<rparr>) x y z v = (SetBiome cd c x y z v)\<lparr>chunk_sub := subs\<rparr>)"
    and ret: "NetworkDecode cd tab a data count oldBiomes False r = Some (Inr (c, nbts))"
  shows "chunk_sub c =
      storeSubChunks (subChunkRounds cd [0..<nat count] data (New cd a r)) (chunk_sub (New cd a r))"
proof -
  let ?c0 = "New cd a r"
  from ret obtain c1 buf1 where
    F: "decodeSubChunks cd tab False [0..<nat count] data ?c0 = Inr (c1, buf1)"
    by (cases "decodeSubChunks cd tab False [0..<nat count] data ?c0")
       (auto simp: NetworkDecode_def)
  from decodeSubChunks_False_rounds [OF F]
  have c1: "chunk_sub c1 = storeSubChunks (subChunkRounds cd [0..<nat count] data ?c0) (chunk_sub ?c0)"
    by (metis Chunk.select_convs(3) Chunk.surjective Chunk.update_convs(3))
  define B where "B = (if oldBiomes
      then (if buf1 = [] then Inl (Wrap ''error reading biomes'' EOF)
            else Inr (setOldBiomes cd (take 256 buf1 @ replicate (256 - length buf1) 0) r c1,
                      drop 256 buf1))
      else decodeBiomeStorages cd NetworkEncoding [0..<length (chunk_sub c1)] None buf1 c1)"
  from ret NetworkDecode_unfold [OF F B_def [symmetric]]
  obtain buf2 where B: "B = Inr (c, buf2)"
    by (auto split: sum.splits option.splits)
  show ?thesis
  proof (cases oldBiomes)
    case True
    with frame have fr: "\<forall>c subs x y z v.
        SetBiome cd (c\<lparr>chunk_sub := subs\<rparr>) x y z v = (SetBiome cd c x y z v)\<lparr>chunk_sub := subs\<rparr>"
      by simp
    from B True have "c = setOldBiomes cd (take 256 buf1 @ replicate (256 - length buf1) 0) r c1"
      by (simp add: B_def split: if_splits)
    with setOldBiomes_keeps_sub [OF fr] c1 show ?thesis
      by simp
  next
    case False
    with B have
      "decodeBiomeStorages cd NetworkEncoding [0..<length (chunk_sub c1)] None buf1 c1 = Inr (c, buf2)"
      by (simp add: B_def)
    from decodeBiomeStorages_keeps [OF this] c1 show ?thesis
      by simp
  qed
qed

text \<open>
  C10. \<open>NetworkDecode\<close> with \<open>hashedRids = true\<close>, for either value of \<open>oldBiomes\<close>, against
  the same call with \<open>hashedRids = false\<close>. As long as no round of the first loop decodes a
  sub-chunk with a nil storage, the two calls end alike (the same error, or both with a chunk
  and the same block entities, or neither returns), and the chunk of the first is the chunk
  of the second with, at the index of every round, the sub-chunk that the round decoded with
  every palette entry of every storage replaced by its image under the table
  \<open>ridHashLookup\<close>; an entry that is not a key of the table is replaced by 0, the zero value
  of the map, and no error arises from the lookup. The sub-chunks of the chunk returned with
  \<open>hashedRids = false\<close> are those the rounds stored. When a round decodes a sub-chunk with a
  nil storage, the call with \<open>hashedRids = true\<close> panics on it. Whenever the call with
  \<open>hashedRids = true\<close> returns a chunk, so does the other, and every sub-chunk slot of the
  first is the replaced slot of the second, or the slot of the new chunk in both. Round by
  round: a round that decodes a sub-chunk without nil storage stores the replaced sub-chunk
  and goes on as the round without hashed IDs does. With \<open>oldBiomes = true\<close> the statement
  needs of \<open>Chunk.SetBiome\<close>, whose source is not among the modelled files, that it neither
  reads nor writes the sub-chunks of the chunk.
\<close>

theorem NetworkDecode_hashedRids:
  "oldBiomes \<longrightarrow> (\<forall>c subs x y z v.
      SetBiome cd (c\<lparr>chunk_sub := subs\<rparr>) x y z v = (SetBiome cd c x y z v)\<lparr>chunk_sub := subs\<rparr>) \<Longrightarrow>
   ((\<forall>(k, s) \<in> set (subChunkRounds cd [0..<nat count] data (New cd a r)). None \<notin> set (storages s)) \<longrightarrow>
      NetworkDecode cd tab a data count oldBiomes True r =
        map_option (map_sum id (\<lambda>(c, nbts).
            (c\<lparr>chunk_sub := storeSubChunks
                  (map (\<lambda>(k, s). (k, hashedSubChunk tab s))
                     (subChunkRounds cd [0..<nat count] data (New cd a r)))
                  (chunk_sub (New cd a r))\<rparr>, nbts)))
          (NetworkDecode cd tab a data count oldBiomes False r)) \<and>
   (NetworkDecode cd tab a data count oldBiomes False r = Some (Inr (c0, nbts0)) \<longrightarrow>
      chunk_sub c0 =
        storeSubChunks (subChunkRounds cd [0..<nat count] data (New cd a r)) (chunk_sub (New cd a r))) \<and>
   ((\<exists>(k, s) \<in> set (subChunkRounds cd [0..<nat count] data (New cd a r)). None \<in> set (storages s)) \<longrightarrow>
      NetworkDecode cd tab a data count oldBiomes True r =
        Some (Inl (Panic ''nil pointer dereference''))) \<and>
   (NetworkDecode cd tab a data count oldBiomes True r = Some (Inr (c', nbts)) \<longrightarrow>
      (\<exists>c. NetworkDecode cd tab a data count oldBiomes False r = Some (Inr (c, nbts)) \<and>
         hashed_of tab (New cd a r) c c')) \<and>
   (decodeSubChunk cd buf c1 (of_nat i) NetworkEncoding = (Inr (s1, buf1), idx) \<and>
    unat idx < length (chunk_sub c1) \<and> None \<notin> set (storages s1) \<longrightarrow>
      lookupStorages tab (storages s1) = Inr (map (map_option (hashedStorage tab)) (storages s1)) \<and>
      decodeSubChunks cd tab True (i # rest) buf c1 =
        decodeSubChunks cd tab True rest buf1
          (c1\<lparr>chunk_sub := (chunk_sub c1)[unat idx := hashedSubChunk tab s1]\<rparr>) \<and>
      decodeSubChunks cd tab False (i # rest) buf c1 =
        decodeSubChunks cd tab False rest buf1 (c1\<lparr>chunk_sub := (chunk_sub c1)[unat idx := s1]\<rparr>))"
proof -
  assume frame: "oldBiomes \<longrightarrow> (\<forall>c subs x y z v.
      SetBiome cd (c\<lparr>chunk_sub := subs\<rparr>) x y z v = (SetBiome cd c x y z v)\<lparr>chunk_sub := subs\<rparr>)"
  let ?c0 = "New cd a r"
  let ?rounds = "subChunkRounds cd [0..<nat count] data ?c0"
  let ?S' = "storeSubChunks (map (\<lambda>(k, s). (k, hashedSubChunk tab s)) ?rounds) (chunk_sub ?c0)"
  have A: "(\<forall>(k, s) \<in> set ?rounds. None \<notin> set (storages s)) \<longrightarrow>
      NetworkDecode cd tab a data count oldBiomes True r =
        map_option (map_sum id (\<lambda>(c, nbts). (c\<lparr>chunk_sub := ?S'\<rparr>, nbts)))
          (NetworkDecode cd tab a data count oldBiomes False r)"
    using NetworkDecode_True_rounds [OF frame] by blast
  have B: "NetworkDecode cd tab a data count oldBiomes False r = Some (Inr (c, n)) \<longrightarrow>
      chunk_sub c = storeSubChunks ?rounds (chunk_sub ?c0)" for c n
    using NetworkDecode_False_sub [OF frame] by blast
  have C: "(\<exists>(k, s) \<in> set ?rounds. None \<in> set (storages s)) \<longrightarrow>
      NetworkDecode cd tab a data count oldBiomes True r =
        Some (Inl (Panic ''nil pointer dereference''))"
    using NetworkDecode_True_nil by blast
  have D: "NetworkDecode cd tab a data count oldBiomes True r = Some (Inr (c', nbts)) \<longrightarrow>
      (\<exists>c. NetworkDecode cd tab a data count oldBiomes False r = Some (Inr (c, nbts)) \<and>
         hashed_of tab ?c0 c c')"
  proof
    assume ret: "NetworkDecode cd tab a data count oldBiomes True r = Some (Inr (c', nbts))"
    with C have nonil: "\<forall>(k, s) \<in> set ?rounds. None \<notin> set (storages s)"
      by auto
    with A ret have "map_option (map_sum id (\<lambda>(c, nbts). (c\<lparr>chunk_sub := ?S'\<rparr>, nbts)))
          (NetworkDecode cd tab a data count oldBiomes False r) = Some (Inr (c', nbts))"
      by simp
    then obtain c where F: "NetworkDecode cd tab a data count oldBiomes False r = Some (Inr (c, nbts))"
      and c': "c' = c\<lparr>chunk_sub := ?S'\<rparr>"
      by (cases "NetworkDecode cd tab a data count oldBiomes False r")
         (auto simp: map_sum_def split: sum.splits)
    from B F have sub: "chunk_sub c = storeSubChunks ?rounds (chunk_sub ?c0)"
      by blast
    have "\<forall>k < length (chunk_sub ?c0).
        ?S' ! k = hashedSubChunk tab (storeSubChunks ?rounds (chunk_sub ?c0) ! k) \<or>
        ?S' ! k = chunk_sub ?c0 ! k \<and> storeSubChunks ?rounds (chunk_sub ?c0) ! k = chunk_sub ?c0 ! k"
      by (rule storeSubChunks_hashed) simp_all
    then have "hashed_of tab ?c0 c c'"
      unfolding hashed_of_def c' by (simp add: sub)
    with F show "\<exists>c. NetworkDecode cd tab a data count oldBiomes False r = Some (Inr (c, nbts)) \<and>
         hashed_of tab ?c0 c c'"
      by blast
  qed
  have E: "decodeSubChunk cd buf c1 (of_nat i) NetworkEncoding = (Inr (s1, buf1), idx) \<and>
    unat idx < length (chunk_sub c1) \<and> None \<notin> set (storages s1) \<longrightarrow>
      lookupStorages tab (storages s1) = Inr (map (map_option (hashedStorage tab)) (storages s1)) \<and>
      decodeSubChunks cd tab True (i # rest) buf c1 =
        decodeSubChunks cd tab True rest buf1
          (c1\<lparr>chunk_sub := (chunk_sub c1)[unat idx := hashedSubChunk tab s1]\<rparr>) \<and>
      decodeSubChunks cd tab False (i # rest) buf c1 =
        decodeSubChunks cd tab False rest buf1 (c1\<lparr>chunk_sub := (chunk_sub c1)[unat idx := s1]\<rparr>)"
    by (auto simp: lookupStorages_hashed hashedSubChunk_def)
  from A B [of c0 nbts0] C D E show ?thesis
    by (intro conjI)
qed

lemma example_SetBiome_frame:
  "SetBiome example_codec (c\<lparr>chunk_sub := subs\<rparr>) x y z v =
     (SetBiome example_codec c x y z v)\<lparr>chunk_sub := subs\<rparr>"
  by (cases c) (simp add: example_codec_def)

lemma example_New:
  "New example_codec 0 (0, 47) =
     \<lparr>chunk_r = (0, 47), chunk_air = 0, chunk_sub = [NewSubChunk 0, NewSubChunk 0, NewSubChunk 0],
      chunk_biomes = [None, None, None]\<rparr>"
  by (simp add: example_codec_def numeral_3_eq_3)

lemma example_biomes:
  "decodeBiomeStorages example_codec NetworkEncoding [0, Suc 0, Suc (Suc 0)] None [1, 5, 0xFF, 0xFF]
      \<lparr>chunk_r = (0, 47), chunk_air = 0, chunk_sub = subs, chunk_biomes = [None, None, None]\<rparr> =
     Inr (\<lparr>chunk_r = (0, 47), chunk_air = 0, chunk_sub = subs,
           chunk_biomes = [Some (example_storage 5), Some (example_storage 5), Some (example_storage 5)]\<rparr>,
          [])"
proof -
  have p1: "decodePalettedStorage example_codec [1, 5, 0xFF, 0xFF] NetworkEncoding BiomePaletteEncoding =
      (Inr (Some (example_storage 5)), [0xFF, 0xFF])"
    by (simp add: decodePalettedStorage_def example_codec_def example_storage_def
        newPalettedStorage_def Let_def)
  have p2: "decodePalettedStorage example_codec (0xFF # bs) NetworkEncoding BiomePaletteEncoding =
      (Inr None, bs)" for bs
    by (simp add: decodePalettedStorage_def Let_def)
  show ?thesis
    by (simp add: p1 p2)
qed

lemma example_NetworkDecode_False:
  "NetworkDecode example_codec tab 0 example_data 1 False False (0, 47) =
     Some (Inr (example_decoded 9 4, []))"
proof -
  have d: "decodeSubChunk example_codec example_data (New example_codec 0 (0, 47)) 0 NetworkEncoding =
      (Inr (\<lparr>sub_air = 0, storages = [Some (example_storage 9), Some (example_storage 4)]\<rparr>,
            [1, 5, 0xFF, 0xFF]), 0)"
    by code_simp
  have s: "decodeSubChunks example_codec tab False [0] example_data (New example_codec 0 (0, 47)) =
      Inr (\<lparr>chunk_r = (0, 47), chunk_air = 0,
        chunk_sub = [\<lparr>sub_air = 0, storages = [Some (example_storage 9), Some (example_storage 4)]\<rparr>,
                     NewSubChunk 0, NewSubChunk 0],
        chunk_biomes = [None, None, None]\<rparr>, [1, 5, 0xFF, 0xFF])"
    using d by (simp add: example_New)
  have t: "decodeBlockNBTs example_codec [] [] = Some (Inr [])"
    by (subst decodeBlockNBTs.simps) simp
  have u: "[0..<nat 1] = [0]" "[0..<3] = [0, Suc 0, Suc (Suc 0)]"
    by (simp_all add: upt_conv_Cons)
  show ?thesis
    by (simp add: NetworkDecode_def Let_def u s example_biomes t example_decoded_def
          del: decodeSubChunks.simps decodeBiomeStorages.simps)
qed

lemma example_NetworkDecode_old:
  "map_option (map_sum id (\<lambda>(c, nbts). (chunk_sub c, nbts)))
     (NetworkDecode example_codec tab 0 [8, 2, 1, 9, 1, 4, 7] 1 True False (0, 47)) =
     Some (Inr ([\<lparr>sub_air = 0, storages = [Some (example_storage 9), Some (example_storage 4)]\<rparr>,
                 NewSubChunk 0, NewSubChunk 0], []))"
proof -
  have d: "decodeSubChunk example_codec [8, 2, 1, 9, 1, 4, 7] (New example_codec 0 (0, 47)) 0 NetworkEncoding =
      (Inr (\<lparr>sub_air = 0, storages = [Some (example_storage 9), Some (example_storage 4)]\<rparr>, [7]), 0)"
    by code_simp
  have s: "decodeSubChunks example_codec tab False [0] [8, 2, 1, 9, 1, 4, 7] (New example_codec 0 (0, 47)) =
      Inr (\<lparr>chunk_r = (0, 47), chunk_air = 0,
        chunk_sub = [\<lparr>sub_air = 0, storages = [Some (example_storage 9), Some (example_storage 4)]\<rparr>,
                     NewSubChunk 0, NewSubChunk 0],
        chunk_biomes = [None, None, None]\<rparr>, [7])"
    using d by (simp add: example_New)
  have t: "decodeBlockNBTs example_codec [] [] = Some (Inr [])"
    by (subst decodeBlockNBTs.simps) simp
  have u: "[0..<nat 1] = [0]"
    by (simp_all add: upt_conv_Cons)
  have k: "chunk_sub (setOldBiomes example_codec bs r c) = chunk_sub c" for bs r c
    by (rule setOldBiomes_keeps_sub) (simp add: example_SetBiome_frame)
  show ?thesis
    by (simp add: NetworkDecode_def Let_def u s t k del: decodeSubChunks.simps)
qed

lemma example_NetworkDecode_nil:
  "NetworkDecode example_codec tab 0 [8, 1, 0xFF, 1, 5, 0xFF, 0xFF] 1 False False (0, 47) =
     Some (Inr (\<lparr>chunk_r = (0, 47), chunk_air = 0,
        chunk_sub = [\<lparr>sub_air = 0, storages = [None]\<rparr>, NewSubChunk 0, NewSubChunk 0],
        chunk_biomes = [Some (example_storage 5), Some (example_storage 5), Some (example_storage 5)]\<rparr>, []))"
proof -
  have d: "decodeSubChunk example_codec [8, 1, 0xFF, 1, 5, 0xFF, 0xFF] (New example_codec 0 (0, 47)) 0
      NetworkEncoding = (Inr (\<lparr>sub_air = 0, storages = [None]\<rparr>, [1, 5, 0xFF, 0xFF]), 0)"
    by code_simp
  have s: "decodeSubChunks example_codec tab False [0] [8, 1, 0xFF, 1, 5, 0xFF, 0xFF]
      (New example_codec 0 (0, 47)) =
      Inr (\<lparr>chunk_r = (0, 47), chunk_air = 0,
        chunk_sub = [\<lparr>sub_air = 0, storages = [None]\<rparr>, NewSubChunk 0, NewSubChunk 0],
        chunk_biomes = [None, None, None]\<rparr>, [1, 5, 0xFF, 0xFF])"
    using d by (simp add: example_New)
  have t: "decodeBlockNBTs example_codec [] [] = Some (Inr [])"
    by (subst decodeBlockNBTs.simps) simp
  have u: "[0..<nat 1] = [0]" "[0..<3] = [0, Suc 0, Suc (Suc 0)]"
    by (simp_all add: upt_conv_Cons)
  show ?thesis
    by (simp add: NetworkDecode_def Let_def u s example_biomes t
          del: decodeSubChunks.simps decodeBiomeStorages.simps)
qed

lemma example_rounds:
  "decodeSubChunk example_codec data (New example_codec 0 (0, 47)) 0 NetworkEncoding =
     (Inr (s, buf1), 0) \<Longrightarrow>
   subChunkRounds example_codec [0..<nat 1] data (New example_codec 0 (0, 47)) = [(0, s)]"
  by (simp add: upt_conv_Cons example_New)

theorem NetworkDecode_hashedRids_witness:
  "(\<forall>c subs x y z v. SetBiome example_codec (c\<lparr>chunk_sub := subs\<rparr>) x y z v =
       (SetBiome example_codec c x y z v)\<lparr>chunk_sub := subs\<rparr>) \<and>
   subChunkRounds example_codec [0..<nat 1] [8, 2, 1, 9, 1, 4, 7] (New example_codec 0 (0, 47)) =
     [(0, \<lparr>sub_air = 0, storages = [Some (example_storage 9), Some (example_storage 4)]\<rparr>)] \<and>
   map_option (map_sum id (\<lambda>(c, nbts). (chunk_sub c, nbts)))
     (NetworkDecode example_codec [9 \<mapsto> 100] 0 [8, 2, 1, 9, 1, 4, 7] 1 True False (0, 47)) =
     Some (Inr ([\<lparr>sub_air = 0, storages = [Some (example_storage 9), Some (example_storage 4)]\<rparr>,
                 NewSubChunk 0, NewSubChunk 0], [])) \<and>
   map_option (map_sum id (\<lambda>(c, nbts). (chunk_sub c, nbts)))
     (NetworkDecode example_codec [9 \<mapsto> 100] 0 [8, 2, 1, 9, 1, 4, 7] 1 True True (0, 47)) =
     Some (Inr ([\<lparr>sub_air = 0, storages = [Some (example_storage 100), Some (example_storage 0)]\<rparr>,
                 NewSubChunk 0, NewSubChunk 0], [])) \<and>
   NetworkDecode example_codec [9 \<mapsto> 100] 0 example_data 1 False False (0, 47) =
     Some (Inr (example_decoded 9 4, [])) \<and>
   NetworkDecode example_codec [9 \<mapsto> 100] 0 example_data 1 False True (0, 47) =
     Some (Inr (example_decoded 100 0, [])) \<and>
   subChunkRounds example_codec [0..<nat 1] [8, 1, 0xFF, 1, 5, 0xFF, 0xFF] (New example_codec 0 (0, 47)) =
     [(0, \<lparr>sub_air = 0, storages = [None]\<rparr>)] \<and>
   NetworkDecode example_codec [9 \<mapsto> 100] 0 [8, 1, 0xFF, 1, 5, 0xFF, 0xFF] 1 False False (0, 47) =
     Some (Inr (\<lparr>chunk_r = (0, 47), chunk_air = 0,
        chunk_sub = [\<lparr>sub_air = 0, storages = [None]\<rparr>, NewSubChunk 0, NewSubChunk 0],
        chunk_biomes = [Some (example_storage 5), Some (example_storage 5), Some (example_storage 5)]\<rparr>,
        [])) \<and>
   NetworkDecode example_codec [9 \<mapsto> 100] 0 [8, 1, 0xFF, 1, 5, 0xFF, 0xFF] 1 False True (0, 47) =
     Some (Inl (Panic ''nil pointer dereference'')) \<and>
   decodeSubChunk example_codec [8, 2, 1, 9, 1, 4] example_chunk (of_nat 1) NetworkEncoding =
     (Inr (\<lparr>sub_air = 0, storages = [Some (example_storage 9), Some (example_storage 4)]\<rparr>, []), 1) \<and>
   unat (1 :: byte) < length (chunk_sub example_chunk) \<and>
   None \<notin> set [Some (example_storage 9), Some (example_storage 4)] \<and>
   decodeSubChunks example_codec [9 \<mapsto> 100] True [1] [8, 2, 1, 9, 1, 4] example_chunk =
     Inr (example_chunk\<lparr>chunk_sub := (chunk_sub example_chunk)[1 :=
            \<lparr>sub_air = 0, storages = [Some (example_storage 100), Some (example_storage 0)]\<rparr>]\<rparr>, [])"
proof -
  let ?s = "\<lparr>sub_air = 0, storages = [Some (example_storage 9), Some (example_storage 4)]\<rparr>"
  let ?tab = "[9 \<mapsto> 100] :: u32 \<rightharpoonup> u32"
  have frame: "\<forall>c subs x y z v. SetBiome example_codec (c\<lparr>chunk_sub := subs\<rparr>) x y z v =
       (SetBiome example_codec c x y z v)\<lparr>chunk_sub := subs\<rparr>"
    by (simp add: example_SetBiome_frame)
  have h: "hashedSubChunk ?tab ?s =
      \<lparr>sub_air = 0, storages = [Some (example_storage 100), Some (example_storage 0)]\<rparr>"
    by (simp add: hashedSubChunk_def hashedStorage_def example_storage_def)
  have n: "chunk_sub (New example_codec 0 (0, 47)) = [NewSubChunk 0, NewSubChunk 0, NewSubChunk 0]"
    by (simp add: example_New)
  have "decodeSubChunk example_codec [8, 2, 1, 9, 1, 4, 7] (New example_codec 0 (0, 47)) 0 NetworkEncoding =
      (Inr (?s, [7]), 0)"
    by code_simp
  then have r1: "subChunkRounds example_codec [0..<nat 1] [8, 2, 1, 9, 1, 4, 7]
      (New example_codec 0 (0, 47)) = [(0, ?s)]"
    by (rule example_rounds)
  have "decodeSubChunk example_codec example_data (New example_codec 0 (0, 47)) 0 NetworkEncoding =
      (Inr (?s, [1, 5, 0xFF, 0xFF]), 0)"
    by code_simp
  then have r2: "subChunkRounds example_codec [0..<nat 1] example_data
      (New example_codec 0 (0, 47)) = [(0, ?s)]"
    by (rule example_rounds)
  have "decodeSubChunk example_codec [8, 1, 0xFF, 1, 5, 0xFF, 0xFF] (New example_codec 0 (0, 47)) 0
      NetworkEncoding = (Inr (\<lparr>sub_air = 0, storages = [None]\<rparr>, [1, 5, 0xFF, 0xFF]), 0)"
    by code_simp
  then have r3: "subChunkRounds example_codec [0..<nat 1] [8, 1, 0xFF, 1, 5, 0xFF, 0xFF]
      (New example_codec 0 (0, 47)) = [(0, \<lparr>sub_air = 0, storages = [None]\<rparr>)]"
    by (rule example_rounds)
  have fr: "True \<longrightarrow> (\<forall>c subs x y z v. SetBiome example_codec (c\<lparr>chunk_sub := subs\<rparr>) x y z v =
       (SetBiome example_codec c x y z v)\<lparr>chunk_sub := subs\<rparr>)"
    using frame by simp
  note t1 = NetworkDecode_hashedRids [where cd = example_codec and tab = ?tab and a = 0
      and data = "[8, 2, 1, 9, 1, 4, 7]" and count = 1 and oldBiomes = True and r = "(0, 47)",
      OF fr, THEN conjunct1, unfolded r1]
  then have eq1: "NetworkDecode example_codec ?tab 0 [8, 2, 1, 9, 1, 4, 7] 1 True True (0, 47) =
      map_option (map_sum id (\<lambda>(c, nbts).
          (c\<lparr>chunk_sub := [hashedSubChunk ?tab ?s, NewSubChunk 0, NewSubChunk 0]\<rparr>, nbts)))
        (NetworkDecode example_codec ?tab 0 [8, 2, 1, 9, 1, 4, 7] 1 True False (0, 47))"
    by (simp add: n)
  obtain c where
    F: "NetworkDecode example_codec ?tab 0 [8, 2, 1, 9, 1, 4, 7] 1 True False (0, 47) = Some (Inr (c, []))"
    using example_NetworkDecode_old [of ?tab]
    by (cases "NetworkDecode example_codec ?tab 0 [8, 2, 1, 9, 1, 4, 7] 1 True False (0, 47)")
       (auto simp: map_sum_def split: sum.splits)
  have old: "map_option (map_sum id (\<lambda>(c, nbts). (chunk_sub c, nbts)))
     (NetworkDecode example_codec ?tab 0 [8, 2, 1, 9, 1, 4, 7] 1 True True (0, 47)) =
     Some (Inr ([\<lparr>sub_air = 0, storages = [Some (example_storage 100), Some (example_storage 0)]\<rparr>,
                 NewSubChunk 0, NewSubChunk 0], []))"
    by (simp add: eq1 F h)
  have fr2: "False \<longrightarrow> (\<forall>c subs x y z v. SetBiome example_codec (c\<lparr>chunk_sub := subs\<rparr>) x y z v =
       (SetBiome example_codec c x y z v)\<lparr>chunk_sub := subs\<rparr>)"
    by simp
  note t2 = NetworkDecode_hashedRids [where cd = example_codec and tab = ?tab and a = 0
      and data = example_data and count = 1 and oldBiomes = False and r = "(0, 47)",
      OF fr2, THEN conjunct1, unfolded r2]
  then have eq2: "NetworkDecode example_codec ?tab 0 example_data 1 False True (0, 47) =
      map_option (map_sum id (\<lambda>(c, nbts).
          (c\<lparr>chunk_sub := [hashedSubChunk ?tab ?s, NewSubChunk 0, NewSubChunk 0]\<rparr>, nbts)))
        (NetworkDecode example_codec ?tab 0 example_data 1 False False (0, 47))"
    by (simp add: n)
  have new: "NetworkDecode example_codec ?tab 0 example_data 1 False True (0, 47) =
     Some (Inr (example_decoded 100 0, []))"
    by (simp add: eq2 example_NetworkDecode_False h) (simp add: example_decoded_def)
  note t3 = NetworkDecode_hashedRids [where cd = example_codec and tab = ?tab and a = 0
      and data = "[8, 1, 0xFF, 1, 5, 0xFF, 0xFF]" and count = 1 and oldBiomes = False and r = "(0, 47)",
      OF fr2, THEN conjunct2, THEN conjunct2, THEN conjunct1, unfolded r3]
  then have nil: "NetworkDecode example_codec ?tab 0 [8, 1, 0xFF, 1, 5, 0xFF, 0xFF] 1 False True (0, 47) =
     Some (Inl (Panic ''nil pointer dereference''))"
    by simp
  have d: "decodeSubChunk example_codec [8, 2, 1, 9, 1, 4] example_chunk (of_nat 1) NetworkEncoding =
     (Inr (?s, []), 1)"
    by code_simp
  have i: "unat (1 :: byte) < length (chunk_sub example_chunk)"
    by (simp add: example_chunk_def example_codec_def)
  have nn: "None \<notin> set (storages ?s)"
    by simp
  from NetworkDecode_hashedRids [where cd = example_codec and tab = ?tab and oldBiomes = False
      and buf = "[8, 2, 1, 9, 1, 4]" and ?c1.0 = example_chunk and i = 1 and ?s1.0 = ?s
      and ?buf1.0 = "[]" and idx = 1 and rest = "[]", OF fr2,
      THEN conjunct2, THEN conjunct2, THEN conjunct2, THEN conjunct2] d i nn
  have round: "decodeSubChunks example_codec ?tab True [1] [8, 2, 1, 9, 1, 4] example_chunk =
      decodeSubChunks example_codec ?tab True [] []
        (example_chunk\<lparr>chunk_sub := (chunk_sub example_chunk)[unat (1 :: byte) := hashedSubChunk ?tab ?s]\<rparr>)"
    by blast
  have step: "decodeSubChunks example_codec ?tab True [1] [8, 2, 1, 9, 1, 4] example_chunk =
     Inr (example_chunk\<lparr>chunk_sub := (chunk_sub example_chunk)[1 :=
            \<lparr>sub_air = 0, storages = [Some (example_storage 100), Some (example_storage 0)]\<rparr>]\<rparr>, [])"
    unfolding round h by simp
  have nn': "None \<notin> set [Some (example_storage 9), Some (example_storage 4)]"
    by simp
  show ?thesis
    by (simp only: frame r1 r3 old new nil example_NetworkDecode_old example_NetworkDecode_False
          example_NetworkDecode_nil d i nn' step simp_thms)
qed

section \<open>Properties of the world provider\<close>

lemma index_origin: "index (0, 0) Overworld = [0, 0, 0, 0, 0, 0, 0, 0]"
  by (simp add: index_eq DimensionID_cases Overworld_def little_endian_u32_def)

lemma string_bytes_digp: "string_bytes ''digp'' = [100, 105, 103, 112]"
  by (simp add: string_bytes_def)

lemma putSubChunks_failing:
  "\<forall>n k v. faults l n (OpPut k v) \<Longrightarrow>
     putSubChunks pv key r0 i ss l = l\<lparr>clock := clock l + length ss\<rparr>"
  by (induction ss arbitrary: i l) (simp_all add: Put_def)

lemma SaveChunk_nil: "fst (SaveChunk pv db position c dim) = None"
  by (simp add: SaveChunk_def Let_def)

text \<open>
  C2 at the failing input. On a store whose writes all fail, the write of the version byte
  is a store error, \<open>SaveChunk\<close> returns nil, and neither the version key nor anything else
  is in the store afterwards, though the encoded chunk has three sub-chunks. On the same
  store \<open>SaveEntities\<close> returns the store error of its write.
\<close>

theorem SaveChunk_swallows_store_error:
  "fst (Put (ldb (db_of [] is_put)) (index (0, 0) Overworld @ [keyVersion example_provider])
          [chunkVersion example_provider]) = Some ErrStore \<and>
   fst (SaveChunk example_provider (db_of [] is_put) (0, 0) example_chunk Overworld) = None \<and>
   kv (ldb (snd (SaveChunk example_provider (db_of [] is_put) (0, 0) example_chunk Overworld)))
     (index (0, 0) Overworld @ [keyVersion example_provider]) = None \<and>
   length (SubChunks (Encode (chunk_codec example_provider) example_chunk)) = 3 \<and>
   kv (ldb (snd (SaveChunk example_provider (db_of [] is_put) (0, 0) example_chunk Overworld))) =
     Map.empty \<and>
   fst (SaveEntities example_provider (db_of [] is_put) (0, 0) [5] Overworld) =
     Some (Wrap ''save entities: error Adding to db'' ErrStore)"
proof -
  let ?db = "db_of [] is_put"
  have fl: "faults (ldb ?db) = (\<lambda>n. is_put)"
    by (simp add: db_of_def)
  have p: "Put l k v = (Some ErrStore, l\<lparr>clock := Suc (clock l)\<rparr>)" if "faults l = (\<lambda>n. is_put)"
    for l :: leveldb and k v
    using that by (simp add: Put_def is_put_def)
  have n: "length (SubChunks (Encode (chunk_codec example_provider) example_chunk)) = 3"
    by (simp add: example_provider_def example_codec_def example_chunk_def)
  have s: "kv (ldb (snd (SaveChunk example_provider ?db (0, 0) example_chunk Overworld))) = Map.empty"
    by (simp add: SaveChunk_def Let_def p fl putSubChunks_failing is_put_def) (simp add: db_of_def)
  have t: "Type example_provider 5 = pig_type"
    by (simp add: example_provider_def)
  have g: "Get (ldb ?db) (string_bytes ''digp'' @ index (0, 0) Overworld) =
      (Inl ErrNotFound, (ldb ?db)\<lparr>clock := Suc 0\<rparr>)"
    by (simp add: Get_def db_of_def is_put_def)
  have e: "fst (SaveEntities example_provider ?db (0, 0) [5] Overworld) =
      Some (Wrap ''save entities: error Adding to db'' ErrStore)"
    by (simp add: SaveEntities_def Let_def g t pig_type_def p fl)
       (simp add: example_provider_def example_nbt_encode_def p fl)
  show ?thesis
    by (simp add: n s e SaveChunk_nil) (simp add: p fl)
qed

text \<open>
  C3 at the failing input. The current version key is absent, the old version key is
  present, and reading the old version key fails with a store error: \<open>LoadChunk\<close> answers
  \<open>exists = false\<close> with a nil error, where the claim has the error propagated with
  \<open>exists = true\<close>.
\<close>

theorem LoadChunk_swallows_store_error:
  "kv (ldb (db_of [(legacy_key, [40])] (\<lambda>op. op = OpGet legacy_key))) legacy_key = Some [40] \<and>
   fst (Get (ldb (db_of [(legacy_key, [40])] (\<lambda>op. op = OpGet legacy_key))) legacy_key) = Inl ErrStore \<and>
   fst (LoadChunk example_provider (db_of [(legacy_key, [40])] (\<lambda>op. op = OpGet legacy_key)) (0, 0) Overworld) =
     (None, False, None)"
  by (simp add: LoadChunk_def Get_def db_of_def legacy_key_def example_provider_def index_eq
     DimensionID_cases Overworld_def little_endian_u32_def)

text \<open>
  C7 at the failing input. The one entity of the list has a type that is not saveable: no
  actor record is written and the list of unique IDs is empty, \<open>SaveEntities\<close> returns nil,
  and the \<open>digp\<close> key is in the store, with the empty value.
\<close>

theorem SaveEntities_digp_without_actors:
  "Type example_provider 0 = PlainType \<and>
   fst (putEntities example_provider [0] (db_of [] (\<lambda>op. False)) []) = Inr [] \<and>
   fst (SaveEntities example_provider (db_of [] (\<lambda>op. False)) (0, 0) [0] Overworld) = None \<and>
   kv (ldb (snd (SaveEntities example_provider (db_of [] (\<lambda>op. False)) (0, 0) [0] Overworld)))
     (string_bytes ''digp'' @ index (0, 0) Overworld) = Some []"
proof -
  have t: "Type example_provider 0 = PlainType"
    by (simp add: example_provider_def)
  have p: "putEntities example_provider [0] db [] = (Inr [], db)" for db
    by (simp add: t)
  have g: "Get (ldb (db_of [] (\<lambda>op. False))) (string_bytes ''digp'' @ index (0, 0) Overworld) =
      (Inl ErrNotFound, (ldb (db_of [] (\<lambda>op. False)))\<lparr>clock := Suc 0\<rparr>)"
    by (simp add: Get_def db_of_def)
  show ?thesis
    by (simp add: t p g SaveEntities_def Let_def)
       (simp add: Put_def Delete_def db_of_def index_origin string_bytes_digp)
qed

text \<open>
  C8 at the failing input. With the empty entity list \<open>SaveEntities\<close> returns nil and the
  legacy inline entity stream is still in the store; with a list that is not empty the same
  call deletes it.
\<close>

theorem SaveEntities_keeps_inline_stream:
  "fst (SaveEntities example_provider
          (db_of [(index (0, 0) Overworld @ [keyEntities example_provider], [5])] (\<lambda>op. False))
          (0, 0) [] Overworld) = None \<and>
   kv (ldb (snd (SaveEntities example_provider
          (db_of [(index (0, 0) Overworld @ [keyEntities example_provider], [5])] (\<lambda>op. False))
          (0, 0) [] Overworld)))
     (index (0, 0) Overworld @ [keyEntities example_provider]) = Some [5] \<and>
   kv (ldb (snd (SaveEntities example_provider
          (db_of [(index (0, 0) Overworld @ [keyEntities example_provider], [5])] (\<lambda>op. False))
          (0, 0) [0] Overworld)))
     (index (0, 0) Overworld @ [keyEntities example_provider]) = None"
proof -
  let ?db = "db_of [(index (0, 0) Overworld @ [keyEntities example_provider], [5])] (\<lambda>op. False)"
  have t: "Type example_provider 0 = PlainType"
    by (simp add: example_provider_def)
  have p: "putEntities example_provider [0] db [] = (Inr [], db)" for db
    by (simp add: t)
  have g: "Get (ldb ?db) (string_bytes ''digp'' @ index (0, 0) Overworld) =
      (Inl ErrNotFound, (ldb ?db)\<lparr>clock := Suc 0\<rparr>)"
    by (simp add: Get_def db_of_def index_origin string_bytes_digp)
  show ?thesis
    by (simp add: t p g SaveEntities_def Let_def)
       (simp add: Put_def Delete_def db_of_def index_origin string_bytes_digp)
qed

text \<open>
  A \<open>digp\<close> value that ends within an ID: the last ID is completed from the bytes behind
  the value when the capacity allows it, and the slice expression panics otherwise.
\<close>

lemma readUniqueIDs_capacity:
  "readUniqueIDs [1, 0, 0, 0] [0, 0, 0, 0, 9] = Inr [1] \<and>
   readUniqueIDs [1, 0, 0, 0] [] = Inl (Panic ''slice bounds out of range'')"
proof -
  have e: "readUniqueIDs [] sp = Inr []" for sp
    by (subst readUniqueIDs.simps) simp
  have u: "Uint64 [1, 0, 0, 0, 0, 0, 0, 0] = 1"
    by (simp add: Uint64_def)
  show ?thesis
    by (subst (1 2) readUniqueIDs.simps) (simp add: e u)
qed


lemma loadEntity_keeps_ldb: "ldb (snd (loadEntity pv db m pos reg)) = ldb db"
  by (auto simp: loadEntity_def Let_def split: option.splits EntityType.splits)


lemma loadRecords_keeps_ldb: "ldb (snd (loadRecords pv pos reg ms db a)) = ldb db"
proof (induction ms arbitrary: db a)
  case Nil
  then show ?case by simp
next
  case (Cons m ms)
  show ?case
    using loadEntity_keeps_ldb [of pv db m pos reg]
    by (cases "loadEntity pv db m pos reg") (simp add: Cons.IH)
qed













end
